theory Spec2Isabelle
  imports Complex_Main "HOL-Library.Sublist"
begin

section \<open>Errors and numbers\<close>

text \<open>
  The Python exceptions that the analysed functions can raise, by class. \<open>KeyError\<close> carries
  the missing column label. \<open>ValueError\<close> is what the numeric libraries raise on a batch
  they reject (no samples, no features, a column of the wrong length).
\<close>

datatype error = KeyError string | IndexError | ValueError

definition ebind :: "error + 'a \<Rightarrow> ('a \<Rightarrow> error + 'b) \<Rightarrow> error + 'b" where
  "ebind m f = (case m of Inl e \<Rightarrow> Inl e | Inr v \<Rightarrow> f v)"

text \<open>
  Floating-point results are modelled over the exact reals, extended by the three special
  values that numpy produces instead of raising: a division by zero gives an infinity, and
  \<open>0/0\<close> gives not-a-number (warnings are silenced at import). Rounding and signed zeros
  are not modelled.
\<close>

datatype fval = Fin real | PosInf | NegInf | NotANumber

definition fdiv :: "real \<Rightarrow> real \<Rightarrow> fval" where
  "fdiv a b =
     (if b \<noteq> 0 then Fin (a / b)
      else if 0 < a then PosInf
      else if a < 0 then NegInf
      else NotANumber)"

fun fadd :: "fval \<Rightarrow> fval \<Rightarrow> fval" where
  "fadd (Fin a) (Fin b) = Fin (a + b)"
| "fadd NotANumber _ = NotANumber"
| "fadd _ NotANumber = NotANumber"
| "fadd PosInf NegInf = NotANumber"
| "fadd NegInf PosInf = NotANumber"
| "fadd PosInf _ = PosInf"
| "fadd _ PosInf = PosInf"
| "fadd NegInf _ = NegInf"
| "fadd _ NegInf = NegInf"

fun fscale :: "fval \<Rightarrow> real \<Rightarrow> fval" where
  "fscale (Fin a) c = Fin (a * c)"
| "fscale NotANumber c = NotANumber"
| "fscale PosInf c = (if 0 < c then PosInf else if c < 0 then NegInf else NotANumber)"
| "fscale NegInf c = (if 0 < c then NegInf else if c < 0 then PosInf else NotANumber)"

text \<open>
  \<open>x ** e\<close> for an exponent \<open>0 < e \<le> 1\<close>, the only exponents \<open>calculate_growth_metrics\<close>
  uses: a negative base with a fractional exponent is not-a-number, the exponent \<open>1\<close>
  returns the base.
\<close>

fun fpow :: "fval \<Rightarrow> real \<Rightarrow> fval" where
  "fpow (Fin b) e =
     (if e = 1 then Fin b else if 0 \<le> b then Fin (b powr e) else NotANumber)"
| "fpow PosInf e = PosInf"
| "fpow NegInf e = (if e = 1 then NegInf else PosInf)"
| "fpow NotANumber e = NotANumber"

definition mean :: "real list \<Rightarrow> real" where
  "mean xs = sum_list xs / real (length xs)"

text \<open>\<open>xs.iloc[i]\<close> reads position \<open>i\<close>, or position \<open>len(xs) + i\<close> for a negative \<open>i\<close>, and
  raises when there is no such position.\<close>

definition iloc :: "'a list \<Rightarrow> int \<Rightarrow> error + 'a" where
  "iloc xs i =
     (if 0 \<le> i \<and> i < int (length xs) then Inr (xs ! nat i)
      else if i < 0 \<and> - int (length xs) \<le> i then Inr (xs ! nat (int (length xs) + i))
      else Inl IndexError)"


section \<open>Trend analysis: \<open>trend_analyzer.py\<close>\<close>

text \<open>
  A series is the list of its values in index order. For \<open>detect_trend_direction\<close>, the
  growth metrics and the peak search the values are finite numbers. The series of
  \<open>forecast_linear_trend\<close> may also hold a missing or an infinite value.
\<close>

subsection \<open>The regression library\<close>

text \<open>
  \<open>np.arange(a, b)\<close> as a column of reals, and scikit-learn's \<open>LinearRegression\<close> on one
  feature: the least-squares line through the centred data, with the minimum-norm
  solution (slope \<open>0\<close>) when the feature is constant. Fitting or predicting on a batch
  without samples raises.
\<close>

definition arange :: "nat \<Rightarrow> nat \<Rightarrow> real list" where
  "arange a b = map real [a..<b]"

record linear_model =
  coef :: real
  intercept :: real

definition sxx :: "real list \<Rightarrow> real" where
  "sxx X = (\<Sum>u\<leftarrow>X. (u - mean X)\<^sup>2)"

definition sxy :: "real list \<Rightarrow> real list \<Rightarrow> real" where
  "sxy X y = (\<Sum>(u, v)\<leftarrow>zip X y. (u - mean X) * (v - mean y))"

definition LinearRegression_fit :: "real list \<Rightarrow> real list \<Rightarrow> error + linear_model" where
  "LinearRegression_fit X y =
     (if X = [] then Inl ValueError
      else let b = (if sxx X = 0 then 0 else sxy X y / sxx X)
           in Inr \<lparr>coef = b, intercept = mean y - b * mean X\<rparr>)"

definition predict :: "linear_model \<Rightarrow> real list \<Rightarrow> error + real list" where
  "predict lr X =
     (if X = [] then Inl ValueError
      else Inr (map (\<lambda>u. intercept lr + coef lr * u) X))"

text \<open>
  \<open>sklearn.metrics.r2_score\<close>: not-a-number below two samples; \<open>1 - SS_res / SS_tot\<close>,
  and for a constant target \<open>1\<close> when the fit is exact, \<open>0\<close> otherwise.
\<close>

definition r2_score :: "real list \<Rightarrow> real list \<Rightarrow> fval" where
  "r2_score y p =
     (let ss_res = (\<Sum>(v, q)\<leftarrow>zip y p. (v - q)\<^sup>2);
          ss_tot = (\<Sum>v\<leftarrow>y. (v - mean y)\<^sup>2)
      in if length y < 2 then NotANumber
         else if ss_res = 0 then Fin 1
         else if ss_tot = 0 then Fin 0
         else Fin (1 - ss_res / ss_tot))"

text \<open>
  \<open>series.rolling(window=w).mean()\<close>: position \<open>i\<close> holds the mean of the \<open>w\<close>
  values ending at \<open>i\<close>, and not-a-number while fewer than \<open>w\<close> values are there.
\<close>

definition rolling_window :: "nat \<Rightarrow> 'a list \<Rightarrow> nat \<Rightarrow> 'a list" where
  "rolling_window w xs i = take w (drop (Suc i - w) xs)"

definition series_rolling_mean :: "nat \<Rightarrow> real list \<Rightarrow> fval list" where
  "series_rolling_mean w xs =
     map (\<lambda>i. if 0 < w \<and> w \<le> Suc i then Fin (mean (rolling_window w xs i)) else NotANumber)
       [0..<length xs]"

text \<open>The squared error of the line \<open>a + b u\<close> on the points \<open>(u, v)\<close>.\<close>

definition sse :: "real \<Rightarrow> real \<Rightarrow> real list \<Rightarrow> real list \<Rightarrow> real" where
  "sse a b X y = (\<Sum>(u, v)\<leftarrow>zip X y. (v - (a + b * u))\<^sup>2)"

subsection \<open>\<open>detect_trend_direction\<close>\<close>

record trend_info =
  direction :: string
  slope :: real
  strength :: fval
  moving_average :: "fval option"

definition detect_trend_direction :: "real list \<Rightarrow> nat \<Rightarrow> error + trend_info" where
  "detect_trend_direction series window =
     (let ma = series_rolling_mean window series;
          X = arange 0 (length series);
          y = series
      in ebind (LinearRegression_fit X y) (\<lambda>lr.
         let slope = coef lr;
             direction = (if slope > 0.01 then ''Upward''
                          else if slope < - 0.01 then ''Downward''
                          else ''Stable'')
         in ebind (predict lr X) (\<lambda>predictions.
            let strength = r2_score y predictions
            in Inr \<lparr>direction = direction, slope = slope, strength = strength,
                    moving_average = (if length ma > 0 then Some (last ma) else None)\<rparr>)))"

subsection \<open>\<open>forecast_linear_trend\<close>\<close>

record forecast_df =
  forecast :: "real list"
  model :: string

text \<open>
  \<open>lr.fit(X, y)\<close> validates its input first: a target that holds a missing or an infinite
  value is refused with \<open>ValueError\<close>. The horizon \<open>steps\<close> is an integer of any sign, and
  \<open>np.arange(n, n + steps)\<close> is empty when \<open>steps\<close> is not positive.
\<close>

fun check_finite :: "fval list \<Rightarrow> error + real list" where
  "check_finite [] = Inr []"
| "check_finite (Fin r # ys) = ebind (check_finite ys) (\<lambda>rs. Inr (r # rs))"
| "check_finite (_ # ys) = Inl ValueError"

definition forecast_linear_trend :: "fval list \<Rightarrow> int \<Rightarrow> error + forecast_df" where
  "forecast_linear_trend series steps =
     (let X = arange 0 (length series);
          y = series
      in ebind (ebind (check_finite y) (LinearRegression_fit X)) (\<lambda>lr.
         let future_X = arange (length series) (nat (int (length series) + steps))
         in ebind (predict lr future_X) (\<lambda>forecast.
            Inr \<lparr>forecast = forecast, model = ''Linear Trend''\<rparr>)))"

subsection \<open>\<open>calculate_growth_metrics\<close>\<close>

text \<open>
  \<open>series.pct_change()\<close>: the first entry is undefined, entry \<open>i\<close> is
  \<open>s[i] / s[i-1] - 1\<close>. \<open>Series.mean()\<close> skips undefined entries and is undefined when
  none is left.
\<close>

definition pct_change :: "real list \<Rightarrow> fval list" where
  "pct_change s =
     (case s of [] \<Rightarrow> []
      | _ # rest \<Rightarrow> NotANumber # map (\<lambda>(p, c). fadd (fdiv c p) (Fin (- 1))) (zip s rest))"

definition nanmean :: "fval list \<Rightarrow> fval" where
  "nanmean xs =
     (let ys = filter (\<lambda>v. v \<noteq> NotANumber) xs
      in if ys = [] then NotANumber
         else fscale (foldl fadd (Fin 0) ys) (1 / real (length ys)))"

record growth_metrics =
  mom_growth :: fval
  yoy_growth :: "fval option"
  cagr :: "fval option"
  avg_growth_rate :: fval
  current_value :: real
  start_value :: real

definition calculate_growth_metrics :: "real list \<Rightarrow> error + growth_metrics" where
  "calculate_growth_metrics series =
     ebind (iloc (pct_change series) (- 1)) (\<lambda>m.
     let mom_growth = fscale m 100
     in ebind (if length series \<ge> 365
               then ebind (iloc series (- 1)) (\<lambda>cur.
                    ebind (iloc series (- 365)) (\<lambda>old.
                    Inr (Some (fscale (fdiv (cur - old) old) 100))))
               else Inr None) (\<lambda>yoy_growth.
        ebind (if length series \<ge> 365
               then let years = real (length series) / 365
                    in ebind (iloc series (- 1)) (\<lambda>cur.
                       ebind (iloc series 0) (\<lambda>first.
                       Inr (Some (fscale (fadd (fpow (fdiv cur first) (1 / years)) (Fin (- 1))) 100))))
               else Inr None) (\<lambda>cagr.
        let avg_growth = fscale (nanmean (pct_change series)) 100
        in ebind (iloc series (- 1)) (\<lambda>cur.
           ebind (iloc series 0) (\<lambda>first.
           Inr \<lparr>mom_growth = mom_growth, yoy_growth = yoy_growth, cagr = cagr,
                avg_growth_rate = avg_growth, current_value = cur,
                start_value = first\<rparr>)))))"

subsection \<open>\<open>identify_peaks_and_troughs\<close>\<close>

text \<open>
  \<open>scipy.signal.find_peaks(x, prominence=p)\<close>. A local maximum is a sample, or the middle of
  a flat run of samples, strictly above both neighbours; the first and the last sample are
  never one. The prominence of a peak is its height above the higher of the two lowest
  points reached by walking left and right while the signal stays at or below the peak.
  Peaks of prominence at least \<open>p\<close> are kept.
\<close>

function plateau_end :: "real list \<Rightarrow> nat \<Rightarrow> nat \<Rightarrow> nat" where
  "plateau_end x i i_ahead =
     (if i_ahead < length x - 1 \<and> x ! i_ahead = x ! i
      then plateau_end x i (Suc i_ahead) else i_ahead)"
  by pat_completeness auto
termination
  by (relation "measure (\<lambda>(x, i, i_ahead). length x - i_ahead)") auto

declare plateau_end.simps [simp del]

lemma plateau_end_ge: "i_ahead \<le> plateau_end x i i_ahead"
proof (induction x i i_ahead rule: plateau_end.induct)
  case (1 x i i_ahead)
  show ?case
  proof (cases "i_ahead < length x - 1 \<and> x ! i_ahead = x ! i")
    case True
    then have "plateau_end x i i_ahead = plateau_end x i (Suc i_ahead)"
      by (subst plateau_end.simps) simp
    with "1.IH"[OF True] show ?thesis by simp
  next
    case False
    then have "plateau_end x i i_ahead = i_ahead"
      by (subst plateau_end.simps) auto
    then show ?thesis by simp
  qed
qed

function local_maxima_from :: "real list \<Rightarrow> nat \<Rightarrow> nat list" where
  "local_maxima_from x i =
     (if i < length x - 1
      then (if x ! (i - 1) < x ! i
            then (let i_ahead = plateau_end x i (i + 1)
                  in if x ! i_ahead < x ! i
                     then ((i + (i_ahead - 1)) div 2) # local_maxima_from x (Suc i_ahead)
                     else local_maxima_from x (Suc i))
            else local_maxima_from x (Suc i))
      else [])"
  by pat_completeness auto
termination
proof (relation "measure (\<lambda>(x, i). length x - i)", goal_cases)
  case 1
  show ?case by simp
next
  case (2 x i i_ahead)
  have "i + 1 \<le> plateau_end x i (i + 1)" by (rule plateau_end_ge)
  with 2 show ?case by auto
next
  case (3 x i i_ahead)
  then show ?case by auto
next
  case (4 x i)
  then show ?case by auto
qed

declare local_maxima_from.simps [simp del]

definition local_maxima_1d :: "real list \<Rightarrow> nat list" where
  "local_maxima_1d x = local_maxima_from x 1"

definition peak_prominence :: "real list \<Rightarrow> nat \<Rightarrow> real" where
  "peak_prominence x peak =
     (let left_min = foldl min (x ! peak) (takeWhile (\<lambda>v. v \<le> x ! peak) (rev (take peak x)));
          right_min = foldl min (x ! peak) (takeWhile (\<lambda>v. v \<le> x ! peak) (drop (Suc peak) x))
      in x ! peak - max left_min right_min)"

definition find_peaks :: "real list \<Rightarrow> real \<Rightarrow> nat list" where
  "find_peaks x prominence =
     filter (\<lambda>peak. prominence \<le> peak_prominence x peak) (local_maxima_1d x)"

text \<open>
  \<open>values[peaks]\<close>: numpy indexing by a list of positions, which raises when a position is
  out of range.
\<close>

definition take_positions :: "'a list \<Rightarrow> nat list \<Rightarrow> error + 'a list" where
  "take_positions xs ps =
     (if \<forall>p\<in>set ps. p < length xs then Inr (map ((!) xs) ps) else Inl IndexError)"

record extrema =
  peak_indices :: "nat list"
  peak_values :: "real list"
  trough_indices :: "nat list"
  trough_values :: "real list"
  peak_count :: nat
  trough_count :: nat

text \<open>
  The optional argument \<open>prominence=0.1\<close> is an \<open>option\<close>: \<open>None\<close> is a call that
  leaves it out.
\<close>

definition identify_peaks_and_troughs :: "real list \<Rightarrow> real option \<Rightarrow> error + extrema" where
  "identify_peaks_and_troughs series prominence_arg =
     (let prominence = (case prominence_arg of None \<Rightarrow> 0.1 | Some p \<Rightarrow> p);
          values = series;
          peaks = find_peaks values prominence;
          troughs = find_peaks (map uminus values) prominence
      in ebind (take_positions values peaks) (\<lambda>pv.
         ebind (take_positions values troughs) (\<lambda>tv.
         Inr \<lparr>peak_indices = peaks, peak_values = pv,
              trough_indices = troughs, trough_values = tv,
              peak_count = length peaks, trough_count = length troughs\<rparr>)))"


section \<open>Anomaly detection: \<open>anomaly_detector.py\<close>\<close>

subsection \<open>Tables\<close>

text \<open>
  A DataFrame is its number of rows and its columns in order, each a label and the cells
  of the column. A cell is a number, a boolean or a missing value (\<open>NaN\<close>). Where
  arithmetic meets a boolean it counts as \<open>0\<close> or \<open>1\<close>, as in numpy.
\<close>

datatype cell = Num real | Flag bool | Missing

record table =
  nrows :: nat
  cols :: "(string \<times> cell list) list"

definition columns :: "table \<Rightarrow> string list" where
  "columns t = map fst (cols t)"

definition getitem :: "table \<Rightarrow> string \<Rightarrow> error + cell list" where
  "getitem t name =
     (case map_of (cols t) name of None \<Rightarrow> Inl (KeyError name) | Some xs \<Rightarrow> Inr xs)"

text \<open>
  \<open>df[name] = values\<close> replaces the column of that label where it stands, or appends a
  new column; values of the wrong length are refused.
\<close>

fun put :: "string \<Rightarrow> cell list \<Rightarrow> (string \<times> cell list) list \<Rightarrow> (string \<times> cell list) list" where
  "put k v [] = [(k, v)]"
| "put k v ((k', v') # rest) = (if k = k' then (k, v) # rest else (k', v') # put k v rest)"

definition setitem :: "table \<Rightarrow> string \<Rightarrow> cell list \<Rightarrow> error + table" where
  "setitem t name vals =
     (if length vals = nrows t then Inr (t\<lparr>cols := put name vals (cols t)\<rparr>)
      else Inl ValueError)"

text \<open>
  A table is well formed when its labels are distinct and every column has one cell per
  row.
\<close>

definition wf_table :: "table \<Rightarrow> bool" where
  "wf_table t \<longleftrightarrow> distinct (columns t) \<and> (\<forall>(n, xs)\<in>set (cols t). length xs = nrows t)"

definition cell_at :: "table \<Rightarrow> string \<Rightarrow> nat \<Rightarrow> cell option" where
  "cell_at t name i =
     (case map_of (cols t) name of
        None \<Rightarrow> None
      | Some xs \<Rightarrow> if i < length xs then Some (xs ! i) else None)"

subsection \<open>The object store\<close>

text \<open>
  DataFrames are mutable objects that a caller and a method may share, so they live in a
  store and are passed by reference (a position in the store). An action runs on the store
  and returns a value or the exception raised, with the store as it then is.
\<close>

type_synonym store = "table list"

type_synonym 'a action = "store \<Rightarrow> (error + 'a) \<times> store"

definition ret :: "'a \<Rightarrow> 'a action" where
  "ret v st = (Inr v, st)"

definition and_then :: "'a action \<Rightarrow> ('a \<Rightarrow> 'b action) \<Rightarrow> 'b action" where
  "and_then m f st = (case m st of (Inl e, st') \<Rightarrow> (Inl e, st') | (Inr v, st') \<Rightarrow> f v st')"

text \<open>\<open>data.copy()\<close> allocates a new object with the same contents.\<close>

definition copy :: "nat \<Rightarrow> nat action" where
  "copy data st = (Inr (length st), st @ [st ! data])"

text \<open>Allocation of the DataFrame that a library call returns.\<close>

definition alloc :: "table \<Rightarrow> nat action" where
  "alloc t st = (Inr (length st), st @ [t])"

definition load :: "nat \<Rightarrow> string \<Rightarrow> cell list action" where
  "load df name st = (getitem (st ! df) name, st)"

definition load_columns :: "nat \<Rightarrow> string list action" where
  "load_columns df st = (Inr (columns (st ! df)), st)"

definition assign :: "nat \<Rightarrow> string \<Rightarrow> cell list \<Rightarrow> unit action" where
  "assign df name vals st =
     (case setitem (st ! df) name vals of
        Inl e \<Rightarrow> (Inl e, st)
      | Inr t \<Rightarrow> (Inr (), st[df := t]))"

text \<open>\<open>df[name] = scalar\<close> fills the column with the scalar.\<close>

definition assign_scalar :: "nat \<Rightarrow> string \<Rightarrow> cell \<Rightarrow> unit action" where
  "assign_scalar df name v st = assign df name (replicate (nrows (st ! df)) v) st"

subsection \<open>Column arithmetic\<close>

definition cell_value :: "cell \<Rightarrow> real option" where
  "cell_value c = (case c of Num r \<Rightarrow> Some r | Flag b \<Rightarrow> Some (if b then 1 else 0) | Missing \<Rightarrow> None)"

definition present :: "cell list \<Rightarrow> real list" where
  "present xs = List.map_filter cell_value xs"

definition lift2 :: "(real \<Rightarrow> real \<Rightarrow> real) \<Rightarrow> cell \<Rightarrow> cell \<Rightarrow> cell" where
  "lift2 f a b =
     (case (cell_value a, cell_value b) of (Some x, Some y) \<Rightarrow> Num (f x y) | _ \<Rightarrow> Missing)"

definition cabs :: "cell \<Rightarrow> cell" where
  "cabs a = (case cell_value a of Some x \<Rightarrow> Num \<bar>x\<bar> | None \<Rightarrow> Missing)"

text \<open>A comparison with a missing value is false.\<close>

definition cless :: "cell \<Rightarrow> cell \<Rightarrow> bool" where
  "cless a b = (case (cell_value a, cell_value b) of (Some x, Some y) \<Rightarrow> x < y | _ \<Rightarrow> False)"

text \<open>
  \<open>scipy.stats.zscore(a, nan_policy='omit')\<close>: mean and population standard deviation of
  the values that are present; a missing value stays missing, and a zero deviation makes
  every score \<open>0/0\<close>, that is missing.
\<close>

definition zscore :: "cell list \<Rightarrow> cell list" where
  "zscore a =
     (let xs = present a;
          mn = mean xs;
          sd = sqrt (mean (map (\<lambda>x. (x - mn)\<^sup>2) xs))
      in map (\<lambda>c. case cell_value c of
                    None \<Rightarrow> Missing
                  | Some x \<Rightarrow> if sd = 0 then Missing else Num ((x - mn) / sd)) a)"

text \<open>
  \<open>Series.quantile(q)\<close>: linear interpolation between the two order statistics around
  position \<open>(n - 1) q\<close> of the values that are present; missing when none is.
\<close>

definition quantile :: "cell list \<Rightarrow> real \<Rightarrow> cell" where
  "quantile a q =
     (let xs = sort (present a); n = length xs
      in if n = 0 then Missing
         else let h = real (n - 1) * q;
                  lo = nat \<lfloor>h\<rfloor>;
                  hi = min (lo + 1) (n - 1)
              in Num (xs ! lo + (xs ! hi - xs ! lo) * (h - real lo)))"

text \<open>
  \<open>Series.rolling(window=w, center=False)\<close>: the window of row \<open>i\<close> is the \<open>w\<close> rows ending
  at \<open>i\<close>. With the default \<open>min_periods\<close> the result is missing unless the window holds
  \<open>w\<close> values that are all present. \<open>std\<close> is the sample deviation (divisor \<open>w - 1\<close>),
  missing for a window of one.
\<close>

definition window_values :: "nat \<Rightarrow> cell list \<Rightarrow> nat \<Rightarrow> real list option" where
  "window_values w xs i =
     (if 0 < w \<and> w \<le> Suc i \<and> (\<forall>c\<in>set (rolling_window w xs i). cell_value c \<noteq> None)
      then Some (present (rolling_window w xs i)) else None)"

definition rolling_mean :: "nat \<Rightarrow> cell list \<Rightarrow> cell list" where
  "rolling_mean w xs =
     map (\<lambda>i. case window_values w xs i of None \<Rightarrow> Missing | Some vs \<Rightarrow> Num (mean vs))
       [0..<length xs]"

definition rolling_std :: "nat \<Rightarrow> cell list \<Rightarrow> cell list" where
  "rolling_std w xs =
     map (\<lambda>i. case window_values w xs i of
                 None \<Rightarrow> Missing
               | Some vs \<Rightarrow> if w < 2 then Missing
                            else Num (sqrt ((\<Sum>v\<leftarrow>vs. (v - mean vs)\<^sup>2) / real (w - 1))))
       [0..<length xs]"

subsection \<open>The outlier library\<close>

text \<open>
  \<open>StandardScaler.fit_transform\<close> on a matrix given by its rows: each feature is centred
  and divided by its population deviation, or by \<open>1\<close> when that is zero. A matrix without
  rows or without features is refused.
\<close>

definition transpose_rows :: "nat \<Rightarrow> 'a list list \<Rightarrow> 'a list list" where
  "transpose_rows n cs = map (\<lambda>i. map (\<lambda>c. c ! i) cs) [0..<n]"

definition scale_feature :: "real list \<Rightarrow> real list" where
  "scale_feature xs =
     (let mn = mean xs;
          sd = sqrt (mean (map (\<lambda>x. (x - mn)\<^sup>2) xs));
          scale = (if sd = 0 then 1 else sd)
      in map (\<lambda>x. (x - mn) / scale) xs)"

definition fit_transform :: "real list list \<Rightarrow> error + real list list" where
  "fit_transform X =
     (if X = [] \<or> hd X = [] then Inl ValueError
      else Inr (transpose_rows (length X)
                  (map scale_feature (transpose_rows (length (hd X)) X))))"

text \<open>
  The isolation forest is a parameter: \<open>fit_predict\<close> labels each row \<open>1\<close> or \<open>-1\<close> and
  \<open>score_samples\<close>, which scores with the forest just fitted to the same rows, returns one
  score per row. Either may raise.
\<close>

record isolation_forest =
  fit_predict :: "real list list \<Rightarrow> error + int list"
  score_samples :: "real list list \<Rightarrow> error + real list"

subsection \<open>The detection methods\<close>

definition lift :: "error + 'a \<Rightarrow> 'a action" where
  "lift r st = (r, st)"

text \<open>\<open>df[features].values\<close>: the selected columns as a matrix of rows.\<close>

fun getitems :: "table \<Rightarrow> string list \<Rightarrow> error + cell list list" where
  "getitems t [] = Inr []"
| "getitems t (name # names) =
     ebind (getitem t name) (\<lambda>c. ebind (getitems t names) (\<lambda>cs. Inr (c # cs)))"

definition select_values :: "table \<Rightarrow> string list \<Rightarrow> error + cell list list" where
  "select_values t names = ebind (getitems t names) (\<lambda>cs. Inr (transpose_rows (nrows t) cs))"

definition load_values :: "nat \<Rightarrow> string list \<Rightarrow> cell list list action" where
  "load_values df names st = (select_values (st ! df) names, st)"

definition nan_to_num :: "cell \<Rightarrow> real" where
  "nan_to_num c = (case cell_value c of None \<Rightarrow> 0 | Some x \<Rightarrow> x)"

definition detect_isolation_forest :: "isolation_forest \<Rightarrow> nat \<Rightarrow> string list \<Rightarrow> nat action" where
  "detect_isolation_forest iso_forest data features =
     and_then (copy data) (\<lambda>df.
     and_then (load_values df features) (\<lambda>X.
     let X = map (map nan_to_num) X
     in and_then (lift (fit_transform X)) (\<lambda>X_scaled.
        and_then (lift (fit_predict iso_forest X_scaled)) (\<lambda>predictions.
        and_then (lift (score_samples iso_forest X_scaled)) (\<lambda>anomaly_scores.
        and_then (assign df ''is_anomaly_if'' (map (\<lambda>p. Flag (p = - 1)) predictions)) (\<lambda>_.
        and_then (assign df ''anomaly_score_if'' (map Num anomaly_scores)) (\<lambda>_.
        ret df)))))))"

definition detect_zscore :: "nat \<Rightarrow> string \<Rightarrow> real \<Rightarrow> nat action" where
  "detect_zscore data column threshold =
     and_then (copy data) (\<lambda>df.
     and_then (load df column) (\<lambda>xs.
     let z_scores = map cabs (zscore xs)
     in and_then (assign df (''is_anomaly_zscore_'' @ column)
                    (map (\<lambda>z. Flag (cless (Num threshold) z)) z_scores)) (\<lambda>_.
        and_then (assign df (''zscore_'' @ column) z_scores) (\<lambda>_.
        ret df))))"

definition detect_iqr :: "nat \<Rightarrow> string \<Rightarrow> real \<Rightarrow> nat action" where
  "detect_iqr data column multiplier =
     and_then (copy data) (\<lambda>df.
     and_then (load df column) (\<lambda>xs1.
     let Q1 = quantile xs1 0.25
     in and_then (load df column) (\<lambda>xs3.
        let Q3 = quantile xs3 0.75;
            IQR = lift2 (-) Q3 Q1;
            lower_bound = lift2 (-) Q1 (lift2 (*) (Num multiplier) IQR);
            upper_bound = lift2 (+) Q3 (lift2 (*) (Num multiplier) IQR)
        in and_then (load df column) (\<lambda>xs.
           and_then (assign df (''is_anomaly_iqr_'' @ column)
                       (map (\<lambda>c. Flag (cless c lower_bound \<or> cless upper_bound c)) xs)) (\<lambda>_.
           and_then (assign_scalar df (''iqr_lower_bound_'' @ column) lower_bound) (\<lambda>_.
           and_then (assign_scalar df (''iqr_upper_bound_'' @ column) upper_bound) (\<lambda>_.
           ret df)))))))"

definition detect_moving_average_deviation :: "nat \<Rightarrow> string \<Rightarrow> nat \<Rightarrow> real \<Rightarrow> nat action" where
  "detect_moving_average_deviation data column window threshold =
     and_then (copy data) (\<lambda>df.
     and_then (load df column) (\<lambda>xs.
     and_then (assign df (''ma_'' @ column) (rolling_mean window xs)) (\<lambda>_.
     and_then (load df column) (\<lambda>xs.
     and_then (assign df (''std_'' @ column) (rolling_std window xs)) (\<lambda>_.
     and_then (load df column) (\<lambda>xs.
     and_then (load df (''ma_'' @ column)) (\<lambda>ma.
     and_then (assign df (''deviation_'' @ column)
                 (map (\<lambda>(x, m). cabs (lift2 (-) x m)) (zip xs ma))) (\<lambda>_.
     and_then (load df (''deviation_'' @ column)) (\<lambda>deviation.
     and_then (load df (''std_'' @ column)) (\<lambda>sd.
     and_then (assign df (''is_anomaly_ma_'' @ column)
                 (map (\<lambda>(d, s). Flag (cless (lift2 (*) (Num threshold) s) d)) (zip deviation sd))) (\<lambda>_.
     ret df)))))))))))"

text \<open>
  \<open>df.sort_values(by)\<close> returns a new DataFrame with the rows in ascending order of the
  column, missing keys last. Rows with equal keys keep their order here; the library's
  default sort does not promise that.
\<close>

definition argsort :: "cell list \<Rightarrow> nat list" where
  "argsort keys =
     (let idx = [0..<length keys]
      in sort_key (\<lambda>i. nan_to_num (keys ! i)) (filter (\<lambda>i. cell_value (keys ! i) \<noteq> None) idx)
         @ filter (\<lambda>i. cell_value (keys ! i) = None) idx)"

definition take_rows :: "table \<Rightarrow> nat list \<Rightarrow> table" where
  "take_rows t perm = t\<lparr>cols := map (\<lambda>(n, xs). (n, map ((!) xs) perm)) (cols t)\<rparr>"

definition sort_values :: "nat \<Rightarrow> string \<Rightarrow> nat action" where
  "sort_values df by =
     and_then (load df by) (\<lambda>keys.
     (\<lambda>st. alloc (take_rows (st ! df) (argsort keys)) st))"

text \<open>Python's \<open>in\<close> on strings, and the truth value of an optional string argument.\<close>

fun is_in :: "string \<Rightarrow> string \<Rightarrow> bool" where
  "is_in pat [] = (pat = [])"
| "is_in pat (c # s) = (prefix pat (c # s) \<or> is_in pat s)"

definition truthy :: "string option \<Rightarrow> bool" where
  "truthy s = (case s of None \<Rightarrow> False | Some v \<Rightarrow> v \<noteq> [])"

text \<open>The loop over the numeric columns, with the default arguments of the three methods.\<close>

fun detect_columns :: "string option \<Rightarrow> string list \<Rightarrow> nat \<Rightarrow> nat action" where
  "detect_columns date_column [] df = ret df"
| "detect_columns date_column (col # rest) df =
     and_then (detect_zscore df col 3) (\<lambda>df.
     and_then (detect_iqr df col 1.5) (\<lambda>df.
     and_then (if truthy date_column
               then detect_moving_average_deviation df col 7 2
               else ret df) (\<lambda>df.
     detect_columns date_column rest df)))"

text \<open>
  \<open>df[anomaly_columns].sum(axis=1)\<close> adds each row over the selected columns, skipping
  missing cells; \<open>>= 2\<close> is false on a missing cell.
\<close>

definition row_sums :: "cell list list \<Rightarrow> cell list" where
  "row_sums X = map (\<lambda>r. Num (sum_list (present r))) X"

definition at_least :: "cell \<Rightarrow> real \<Rightarrow> bool" where
  "at_least c k = (case cell_value c of None \<Rightarrow> False | Some x \<Rightarrow> k \<le> x)"

definition detect_all ::
  "isolation_forest \<Rightarrow> nat \<Rightarrow> string list \<Rightarrow> string option \<Rightarrow> nat action" where
  "detect_all iso_forest data numeric_columns date_column =
     and_then (copy data) (\<lambda>df.
     and_then (if truthy date_column then sort_values df (the date_column) else ret df) (\<lambda>df.
     and_then (detect_isolation_forest iso_forest df numeric_columns) (\<lambda>df.
     and_then (detect_columns date_column numeric_columns df) (\<lambda>df.
     and_then (load_columns df) (\<lambda>names.
     let anomaly_columns = filter (is_in ''is_anomaly'') names
     in and_then (load_values df anomaly_columns) (\<lambda>X.
        and_then (assign df ''anomaly_count'' (row_sums X)) (\<lambda>_.
        and_then (load df ''anomaly_count'') (\<lambda>counts.
        and_then (assign df ''is_anomaly_consensus'' (map (\<lambda>c. Flag (at_least c 2)) counts)) (\<lambda>_.
        ret df)))))))))"

subsection \<open>\<open>get_anomaly_summary\<close>\<close>

record summary =
  total_records :: nat
  method_counts :: "(string \<times> real) list"
  consensus_anomalies :: real

text \<open>\<open>Series.sum()\<close> skips missing cells and counts \<open>True\<close> as one.\<close>

definition column_sum :: "cell list \<Rightarrow> real" where
  "column_sum xs = sum_list (present xs)"

fun sum_columns :: "table \<Rightarrow> string list \<Rightarrow> error + (string \<times> real) list" where
  "sum_columns t [] = Inr []"
| "sum_columns t (col # rest) =
     ebind (getitem t col) (\<lambda>xs.
     ebind (sum_columns t rest) (\<lambda>counts. Inr ((col, column_sum xs) # counts)))"

definition get_anomaly_summary :: "nat \<Rightarrow> summary action" where
  "get_anomaly_summary data =
     and_then (load_columns data) (\<lambda>names.
     let anomaly_columns = filter (is_in ''is_anomaly'') names
     in and_then (if ''is_anomaly_consensus'' \<in> set names
                  then and_then (load data ''is_anomaly_consensus'') (\<lambda>xs. ret (column_sum xs))
                  else ret 0) (\<lambda>consensus.
        (\<lambda>st. and_then (lift (sum_columns (st ! data) anomaly_columns)) (\<lambda>counts.
           ret \<lparr>total_records = nrows (st ! data), method_counts = counts,
                consensus_anomalies = consensus\<rparr>) st)))"

subsection \<open>The methods as functions of the table\<close>

text \<open>
  What each method computes, as a function from the contents of its input to the contents
  of the DataFrame it returns. The refinement lemmas of the next section show that the
  methods above compute exactly this, in an object that did not exist before the call.
\<close>

definition forest_table :: "isolation_forest \<Rightarrow> table \<Rightarrow> string list \<Rightarrow> error + table" where
  "forest_table iso_forest t features =
     ebind (select_values t features) (\<lambda>X.
     ebind (fit_transform (map (map nan_to_num) X)) (\<lambda>X_scaled.
     ebind (fit_predict iso_forest X_scaled) (\<lambda>predictions.
     ebind (score_samples iso_forest X_scaled) (\<lambda>anomaly_scores.
     ebind (setitem t ''is_anomaly_if'' (map (\<lambda>p. Flag (p = - 1)) predictions)) (\<lambda>t.
     setitem t ''anomaly_score_if'' (map Num anomaly_scores))))))"

definition zscore_table :: "table \<Rightarrow> string \<Rightarrow> real \<Rightarrow> error + table" where
  "zscore_table t column threshold =
     ebind (getitem t column) (\<lambda>xs.
     ebind (setitem t (''is_anomaly_zscore_'' @ column)
              (map (\<lambda>z. Flag (cless (Num threshold) z)) (map cabs (zscore xs)))) (\<lambda>t.
     setitem t (''zscore_'' @ column) (map cabs (zscore xs))))"

definition iqr_lower :: "cell list \<Rightarrow> real \<Rightarrow> cell" where
  "iqr_lower xs multiplier =
     lift2 (-) (quantile xs 0.25)
       (lift2 (*) (Num multiplier) (lift2 (-) (quantile xs 0.75) (quantile xs 0.25)))"

definition iqr_upper :: "cell list \<Rightarrow> real \<Rightarrow> cell" where
  "iqr_upper xs multiplier =
     lift2 (+) (quantile xs 0.75)
       (lift2 (*) (Num multiplier) (lift2 (-) (quantile xs 0.75) (quantile xs 0.25)))"

definition iqr_table :: "table \<Rightarrow> string \<Rightarrow> real \<Rightarrow> error + table" where
  "iqr_table t column multiplier =
     ebind (getitem t column) (\<lambda>xs.
     ebind (setitem t (''is_anomaly_iqr_'' @ column)
              (map (\<lambda>c. Flag (cless c (iqr_lower xs multiplier) \<or> cless (iqr_upper xs multiplier) c))
                 xs)) (\<lambda>t.
     ebind (setitem t (''iqr_lower_bound_'' @ column)
              (replicate (nrows t) (iqr_lower xs multiplier))) (\<lambda>t.
     setitem t (''iqr_upper_bound_'' @ column)
       (replicate (nrows t) (iqr_upper xs multiplier)))))"

definition ma_deviation :: "nat \<Rightarrow> cell list \<Rightarrow> cell list" where
  "ma_deviation window xs =
     map (\<lambda>(x, m). cabs (lift2 (-) x m)) (zip xs (rolling_mean window xs))"

definition ma_flags :: "nat \<Rightarrow> real \<Rightarrow> cell list \<Rightarrow> cell list" where
  "ma_flags window threshold xs =
     map (\<lambda>(d, s). Flag (cless (lift2 (*) (Num threshold) s) d))
       (zip (ma_deviation window xs) (rolling_std window xs))"

definition ma_table :: "table \<Rightarrow> string \<Rightarrow> nat \<Rightarrow> real \<Rightarrow> error + table" where
  "ma_table t column window threshold =
     ebind (getitem t column) (\<lambda>xs.
     ebind (setitem t (''ma_'' @ column) (rolling_mean window xs)) (\<lambda>t.
     ebind (setitem t (''std_'' @ column) (rolling_std window xs)) (\<lambda>t.
     ebind (setitem t (''deviation_'' @ column) (ma_deviation window xs)) (\<lambda>t.
     setitem t (''is_anomaly_ma_'' @ column) (ma_flags window threshold xs)))))"

definition sort_table :: "table \<Rightarrow> string \<Rightarrow> error + table" where
  "sort_table t by = ebind (getitem t by) (\<lambda>keys. Inr (take_rows t (argsort keys)))"

fun columns_table :: "string option \<Rightarrow> string list \<Rightarrow> table \<Rightarrow> error + table" where
  "columns_table date_column [] t = Inr t"
| "columns_table date_column (col # rest) t =
     ebind (zscore_table t col 3) (\<lambda>t.
     ebind (iqr_table t col 1.5) (\<lambda>t.
     ebind (if truthy date_column then ma_table t col 7 2 else Inr t) (\<lambda>t.
     columns_table date_column rest t)))"

definition consensus_table :: "table \<Rightarrow> error + table" where
  "consensus_table t =
     ebind (select_values t (filter (is_in ''is_anomaly'') (columns t))) (\<lambda>X.
     ebind (setitem t ''anomaly_count'' (row_sums X)) (\<lambda>t.
     ebind (getitem t ''anomaly_count'') (\<lambda>counts.
     setitem t ''is_anomaly_consensus'' (map (\<lambda>c. Flag (at_least c 2)) counts))))"

definition all_table ::
  "isolation_forest \<Rightarrow> table \<Rightarrow> string list \<Rightarrow> string option \<Rightarrow> error + table" where
  "all_table iso_forest t numeric_columns date_column =
     ebind (if truthy date_column then sort_table t (the date_column) else Inr t) (\<lambda>t.
     ebind (forest_table iso_forest t numeric_columns) (\<lambda>t.
     ebind (columns_table date_column numeric_columns t) consensus_table))"

text \<open>
  A run of an action that returns a DataFrame, seen from a store size \<open>base\<close> fixed
  before it: the store only grows, the objects below \<open>base\<close> are as they were, and the
  outcome is the given error, or a reference at or above \<open>base\<close> to the given table.
\<close>

definition runs :: "nat \<Rightarrow> store \<Rightarrow> (error + nat) \<times> store \<Rightarrow> error + table \<Rightarrow> bool" where
  "runs base st out res \<longleftrightarrow>
     length st \<le> length (snd out) \<and> take base (snd out) = take base st \<and>
     (case res of
        Inl e \<Rightarrow> fst out = Inl e
      | Inr t \<Rightarrow> fst out = Inr (length (snd out) - 1) \<and> base < length (snd out) \<and>
                 last (snd out) = t)"



subsection \<open>The rolling statistics, from the specification\<close>

text \<open>
  For a row \<open>i\<close> and a window \<open>w\<close>, the trailing window is the rows
  \<open>i + 1 - w, \<dots>, i\<close>. The row is qualified when these \<open>w\<close> rows exist and none of
  them is missing; the mean and the sample deviation are taken over them.
\<close>

definition spec_qualified :: "nat \<Rightarrow> cell list \<Rightarrow> nat \<Rightarrow> bool" where
  "spec_qualified w xs i \<longleftrightarrow>
     0 < w \<and> w \<le> i + 1 \<and> list_all (\<lambda>k. cell_value (xs ! (i + 1 - w + k)) \<noteq> None) [0..<w]"

definition spec_mean :: "nat \<Rightarrow> cell list \<Rightarrow> nat \<Rightarrow> real" where
  "spec_mean w xs i = (\<Sum>k\<leftarrow>[0..<w]. nan_to_num (xs ! (i + 1 - w + k))) / real w"

definition spec_std :: "nat \<Rightarrow> cell list \<Rightarrow> nat \<Rightarrow> real" where
  "spec_std w xs i =
     sqrt ((\<Sum>k\<leftarrow>[0..<w]. (nan_to_num (xs ! (i + 1 - w + k)) - spec_mean w xs i)\<^sup>2)
           / real (w - 1))"


subsection \<open>Flag columns\<close>

text \<open>
  A column of booleans, and the invariant of the tables that \<open>detect_all\<close> passes from
  one detector to the next: the table is well formed, the labels that contain
  \<open>is_anomaly\<close> are exactly the set \<open>F\<close>, and each of those columns holds booleans only.
\<close>

definition all_flags :: "cell list \<Rightarrow> bool" where
  "all_flags xs \<longleftrightarrow> list_all (\<lambda>c. case c of Flag b \<Rightarrow> True | _ \<Rightarrow> False) xs"



subsection \<open>Example inputs\<close>

text \<open>
  A stand-in for a fitted forest that accepts every matrix with at least one row (it labels
  a row an outlier when its first scaled feature exceeds \<open>1\<close>), and a table of five rows
  with one numeric column.
\<close>

definition example_forest :: isolation_forest where
  "example_forest =
     \<lparr>fit_predict = (\<lambda>X. if X = [] then Inl ValueError else Inr (map (\<lambda>r. if 1 < hd r then - 1 else 1) X)),
      score_samples = (\<lambda>X. if X = [] then Inl ValueError else Inr (map (\<lambda>r. - \<bar>hd r\<bar>) X))\<rparr>"

definition example_table :: table where
  "example_table = \<lparr>nrows = 5, cols = [(''x'', [Num 0, Num 0, Num 0, Num 0, Num 100])]\<rparr>"


text \<open>A table that holds one detector flag column and no consensus column.\<close>

definition flagged_table :: table where
  "flagged_table = \<lparr>nrows = 3, cols = [(''x'', [Num 1, Num 2, Num 30]),
      (''is_anomaly_iqr_x'', [Flag False, Flag False, Flag True])]\<rparr>"


text \<open>A table whose only column is constant.\<close>

definition constant_table :: table where
  "constant_table = \<lparr>nrows = 3, cols = [(''x'', [Num 5, Num 5, Num 5])]\<rparr>"


text \<open>Seven rows, the last one apart from the others.\<close>

definition seven_table :: table where
  "seven_table = \<lparr>nrows = 7, cols = [(''x'', [Num 0, Num 0, Num 0, Num 0, Num 0, Num 0, Num 1])]\<rparr>"


text \<open>A table with a single row, and one with a column and no rows.\<close>

definition one_row_table :: table where
  "one_row_table = \<lparr>nrows = 1, cols = [(''x'', [Num 1])]\<rparr>"

definition empty_table :: table where
  "empty_table = \<lparr>nrows = 0, cols = [(''x'', [])]\<rparr>"







section \<open>Properties of the trend analysis\<close>

subsection \<open>Regression\<close>

lemma mean_scale: "mean (map ((*) c) y) = c * mean y"
  by (simp add: mean_def sum_list_const_mult)

lemma sxy_scale: "sxy X (map ((*) c) y) = c * sxy X y"
  by (simp add: sxy_def mean_scale zip_map2 case_prod_unfold o_def sum_list_const_mult[symmetric] algebra_simps)

lemma uminus_as_scale: "map uminus y = map ((*) (- 1 :: real)) y"
  by simp

lemma fit_scale:
  "LinearRegression_fit X y = Inr lr \<Longrightarrow>
   \<exists>lr'. LinearRegression_fit X (map ((*) c) y) = Inr lr' \<and> coef lr' = c * coef lr"
  by (auto simp: LinearRegression_fit_def sxy_scale split: if_splits)

lemma fit_ok: "X \<noteq> [] \<Longrightarrow> \<exists>lr. LinearRegression_fit X y = Inr lr"
  by (simp add: LinearRegression_fit_def Let_def)

lemma detect_trend_direction_slope:
  "detect_trend_direction series w = Inr t \<longleftrightarrow>
   (\<exists>lr. LinearRegression_fit (arange 0 (length series)) series = Inr lr \<and>
     t = \<lparr>direction = (if coef lr > 0.01 then ''Upward''
                          else if coef lr < - 0.01 then ''Downward''
                          else ''Stable''), slope = coef lr,
          strength = r2_score series (map (\<lambda>u. intercept lr + coef lr * u) (arange 0 (length series))),
          moving_average = (if series = [] then None else Some (last (series_rolling_mean w series)))\<rparr>)"
  by (cases "LinearRegression_fit (arange 0 (length series)) series")
     (auto simp: detect_trend_direction_def ebind_def Let_def predict_def arange_def series_rolling_mean_def
        LinearRegression_fit_def split: if_splits)

lemma trend_scaled:
  assumes "detect_trend_direction series w = Inr t"
  shows "\<exists>t'. detect_trend_direction (map ((*) c) series) w = Inr t' \<and> slope t' = c * slope t \<and>
     direction t' = (if c * slope t > 0.01 then ''Upward''
                          else if c * slope t < - 0.01 then ''Downward''
                          else ''Stable'')"
proof -
  from assms obtain lr where lr: "LinearRegression_fit (arange 0 (length series)) series = Inr lr"
    and t: "slope t = coef lr"
    unfolding detect_trend_direction_slope by auto
  from fit_scale[OF lr, of c] obtain lr' where
    lr': "LinearRegression_fit (arange 0 (length series)) (map ((*) c) series) = Inr lr'"
    and c: "coef lr' = c * coef lr" by blast
  show ?thesis
    unfolding detect_trend_direction_slope using lr' c t by simp
qed

lemma trend_direction_cases:
  assumes "detect_trend_direction series w = Inr t"
  shows "direction t = (if slope t > 0.01 then ''Upward''
                          else if slope t < - 0.01 then ''Downward''
                          else ''Stable'')"
  using assms unfolding detect_trend_direction_slope by auto

lemma sum_list_all_zero: "(\<forall>x\<in>set xs. f x = 0) \<Longrightarrow> sum_list (map f xs) = (0::real)"
  by (induction xs) auto

lemma sxx_zero_sxy:
  assumes "sxx X = 0"
  shows "sxy X y = 0"
proof -
  have "\<forall>u\<in>set X. (u - mean X)\<^sup>2 = 0"
    using assms unfolding sxx_def
    by (subst (asm) sum_list_nonneg_eq_0_iff) auto
  then have z: "\<forall>u\<in>set X. u - mean X = 0" by simp
  have "\<forall>p\<in>set (zip X y). (case p of (u, v) \<Rightarrow> (u - mean X) * (v - mean y)) = 0"
    using z by (auto dest: set_zip_leftD)
  then show ?thesis unfolding sxy_def
    by (rule sum_list_all_zero)
qed

lemma normal_eq_slope:
  "sxy X y - (if sxx X = 0 then 0 else sxy X y / sxx X) * sxx X = 0"
  by (simp add: sxx_zero_sxy)

lemma sum_zip_fst: "length X = length y \<Longrightarrow> (\<Sum>(u, v)\<leftarrow>zip X y. f u) = (\<Sum>u\<leftarrow>X. f u)"
proof -
  assume l: "length X = length y"
  have "(\<Sum>(u, v)\<leftarrow>zip X y. f u) = sum_list (map f (map fst (zip X y)))"
    by (simp add: o_def case_prod_unfold)
  then show ?thesis using l by simp
qed

lemma sum_zip_snd: "length X = length y \<Longrightarrow> (\<Sum>(u, v)\<leftarrow>zip X y. f v) = (\<Sum>v\<leftarrow>y. f v)"
proof -
  assume l: "length X = length y"
  have "(\<Sum>(u, v)\<leftarrow>zip X y. f v) = sum_list (map f (map snd (zip X y)))"
    by (simp add: o_def case_prod_unfold)
  then show ?thesis using l by simp
qed

lemma sum_dev_zero: "xs \<noteq> [] \<Longrightarrow> (\<Sum>u\<leftarrow>xs. u - mean xs) = 0"
  by (simp add: sum_list_subtractf sum_list_triv mean_def)

lemma ols_optimal:
  assumes len: "length X = length y" and ne: "X \<noteq> []"
    and fit: "LinearRegression_fit X y = Inr lr"
  shows "sse (intercept lr) (coef lr) X y \<le> sse a' b' X y"
proof -
  define b where "b = coef lr"
  define a where "a = intercept lr"
  define xm where "xm = mean X"
  define ym where "ym = mean y"
  have a: "a = ym - b * xm" and bn: "sxy X y - b * sxx X = 0"
    using fit ne normal_eq_slope[of X y]
    by (auto simp: LinearRegression_fit_def a_def b_def xm_def ym_def split: if_splits)
  define e where "e = b - b'"
  define d where "d = (a - a') + e * xm"
  define Z where "Z = zip X y"
  have yne: "y \<noteq> []" using len ne by auto
  have s1: "(\<Sum>(u, v)\<leftarrow>Z. (v - ym) - b * (u - xm)) = 0"
  proof -
    have "(\<Sum>(u, v)\<leftarrow>Z. (v - ym) - b * (u - xm))
        = (\<Sum>(u, v)\<leftarrow>Z. v - ym) - b * (\<Sum>(u, v)\<leftarrow>Z. u - xm)"
      by (simp add: case_prod_unfold sum_list_subtractf sum_list_const_mult)
    also have "\<dots> = (\<Sum>v\<leftarrow>y. v - ym) - b * (\<Sum>u\<leftarrow>X. u - xm)"
      unfolding Z_def using sum_zip_fst[OF len, of "\<lambda>u. u - xm"] sum_zip_snd[OF len, of "\<lambda>v. v - ym"]
      by simp
    also have "\<dots> = 0"
      using sum_dev_zero[OF ne] sum_dev_zero[OF yne] by (simp add: xm_def ym_def)
    finally show ?thesis .
  qed
  have s2: "(\<Sum>(u, v)\<leftarrow>Z. (u - xm) * ((v - ym) - b * (u - xm))) = 0"
  proof -
    have "(\<Sum>(u, v)\<leftarrow>Z. (u - xm) * ((v - ym) - b * (u - xm)))
        = (\<Sum>(u, v)\<leftarrow>Z. (u - xm) * (v - ym) - b * (u - xm)\<^sup>2)"
      by (simp add: algebra_simps power2_eq_square)
    also have "\<dots> = (\<Sum>(u, v)\<leftarrow>Z. (u - xm) * (v - ym)) - b * (\<Sum>(u, v)\<leftarrow>Z. (u - xm)\<^sup>2)"
      by (simp add: case_prod_unfold sum_list_subtractf sum_list_const_mult)
    also have "\<dots> = sxy X y - b * sxx X"
      unfolding Z_def sxy_def sxx_def xm_def ym_def
      using sum_zip_fst[OF len, of "\<lambda>u. (u - mean X)\<^sup>2"] by simp
    finally show ?thesis using bn by simp
  qed
  have pt: "\<And>u v. (v - (a' + b' * u))\<^sup>2
        = (v - (a + b * u))\<^sup>2 + 2 * d * ((v - ym) - b * (u - xm))
          + 2 * e * ((u - xm) * ((v - ym) - b * (u - xm))) + (d + e * (u - xm))\<^sup>2"
    unfolding a d_def e_def by (simp add: power2_eq_square algebra_simps)
  have "sse a' b' X y = (\<Sum>(u, v)\<leftarrow>Z. (v - (a + b * u))\<^sup>2 + 2 * d * ((v - ym) - b * (u - xm))
          + 2 * e * ((u - xm) * ((v - ym) - b * (u - xm))) + (d + e * (u - xm))\<^sup>2)"
    unfolding sse_def Z_def using pt by simp
  also have "\<dots> = sse a b X y + 2 * d * (\<Sum>(u, v)\<leftarrow>Z. (v - ym) - b * (u - xm))
        + 2 * e * (\<Sum>(u, v)\<leftarrow>Z. (u - xm) * ((v - ym) - b * (u - xm)))
        + (\<Sum>(u, v)\<leftarrow>Z. (d + e * (u - xm))\<^sup>2)"
    unfolding sse_def Z_def
    by (simp add: case_prod_unfold sum_list_addf sum_list_const_mult)
  also have "\<dots> = sse a b X y + (\<Sum>(u, v)\<leftarrow>Z. (d + e * (u - xm))\<^sup>2)"
    using s1 s2 by simp
  finally have "sse a' b' X y = sse a b X y + (\<Sum>(u, v)\<leftarrow>Z. (d + e * (u - xm))\<^sup>2)" .
  moreover have "0 \<le> (\<Sum>(u, v)\<leftarrow>Z. (d + e * (u - xm))\<^sup>2)"
    by (rule sum_list_nonneg) auto
  ultimately show ?thesis unfolding a_def b_def by simp
qed

subsection \<open>Growth metrics\<close>

lemma iloc_last: "xs \<noteq> [] \<Longrightarrow> iloc xs (- 1) = Inr (last xs)"
  by (cases xs rule: rev_cases) (auto simp: iloc_def nth_append)

lemma iloc_first: "xs \<noteq> [] \<Longrightarrow> iloc xs 0 = Inr (hd xs)"
  by (cases xs) (auto simp: iloc_def)

lemma iloc_back: "0 < k \<Longrightarrow> k \<le> length xs \<Longrightarrow> iloc xs (- int k) = Inr (xs ! (length xs - k))"
  by (auto simp: iloc_def nat_diff_distrib')

lemma iloc_empty: "iloc [] i = Inl IndexError"
  by (simp add: iloc_def)

lemma pct_change_length: "length (pct_change s) = length s"
  by (cases s) (auto simp: pct_change_def)

lemma pct_change_empty_iff: "pct_change s = [] \<longleftrightarrow> s = []"
  using pct_change_length[of s] by (metis length_0_conv)

lemma growth_metrics_empty: "calculate_growth_metrics [] = Inl IndexError"
  by (simp add: calculate_growth_metrics_def pct_change_def iloc_empty ebind_def)

lemma growth_metrics_nonempty:
  assumes "series \<noteq> []"
  shows "calculate_growth_metrics series = Inr
     \<lparr>mom_growth = fscale (last (pct_change series)) 100,
      yoy_growth = (if 365 \<le> length series
          then Some (fscale (fdiv (last series - series ! (length series - 365))
                       (series ! (length series - 365))) 100)
          else None),
      cagr = (if 365 \<le> length series
          then Some (fscale (fadd (fpow (fdiv (last series) (hd series))
                       (1 / (real (length series) / 365))) (Fin (- 1))) 100)
          else None),
      avg_growth_rate = fscale (nanmean (pct_change series)) 100,
      current_value = last series,
      start_value = hd series\<rparr>"
proof -
  have p: "pct_change series \<noteq> []" using assms by (simp add: pct_change_empty_iff)
  have b: "365 \<le> length series \<Longrightarrow> iloc series (- 365) = Inr (series ! (length series - 365))"
    using iloc_back[of 365 series] by simp
  show ?thesis
    unfolding calculate_growth_metrics_def
    by (simp add: iloc_last[OF p] iloc_last[OF assms] iloc_first[OF assms] b ebind_def Let_def)
qed

text \<open>
  Claim C3, as the code has it. On an empty series \<open>calculate_growth_metrics\<close> raises
  \<open>IndexError\<close> at its first statement. On every other series it returns, and both the
  year-over-year growth and the CAGR are null exactly when the series has fewer than 365
  points: the first value is never inspected.
\<close>

theorem growth_metrics_null_iff:
  "(series = [] \<longrightarrow> calculate_growth_metrics series = Inl IndexError) \<and>
   (series \<noteq> [] \<longrightarrow>
     (\<exists>m. calculate_growth_metrics series = Inr m \<and>
        (yoy_growth m = None \<longleftrightarrow> length series < 365) \<and>
        (cagr m = None \<longleftrightarrow> length series < 365)))"
  by (auto simp: growth_metrics_empty growth_metrics_nonempty)

text \<open>
  The theorem at the series \<open>[1, 2, 4]\<close>: both metrics are null.
\<close>

theorem growth_metrics_null_iff_witness:
  "map_sum id cagr (calculate_growth_metrics [1, 2, 4]) = Inr None \<and>
   map_sum id yoy_growth (calculate_growth_metrics [1, 2, 4]) = Inr None"
  using growth_metrics_null_iff[of "[1, 2, 4]"] by auto

text \<open>
  Claim C3 as stated fails: 365 points with first value \<open>-2\<close> have a CAGR (here
  \<open>0\<close>) although the first value is not positive, and the empty series, which has fewer
  than 365 points, gets no result at all.
\<close>

theorem growth_metrics_cagr_counterexample:
  "map_sum id cagr (calculate_growth_metrics (replicate 365 (- 2))) = Inr (Some (Fin 0)) \<and>
   calculate_growth_metrics [] = Inl IndexError"
  by (simp add: growth_metrics_empty growth_metrics_nonempty fdiv_def)

subsection \<open>Trend direction\<close>

lemma scale_keeps_sign:
  fixes s c :: real
  assumes "0 < c"
  shows "(s > 0.01 \<longrightarrow> \<not> c * s < - 0.01) \<and> (s < - 0.01 \<longrightarrow> \<not> c * s > 0.01)"
proof (intro conjI impI)
  assume "s > 0.01"
  then have "0 < c * s" using assms by simp
  then show "\<not> c * s < - 0.01" by simp
next
  assume "s < - 0.01"
  then have "c * s < 0" using assms by (simp add: mult_pos_neg)
  then show "\<not> c * s > 0.01" by simp
qed

lemma scale_up_keeps_class:
  fixes s c :: real
  assumes "1 \<le> c"
  shows "(s > 0.01 \<longrightarrow> c * s > 0.01) \<and> (s < - 0.01 \<longrightarrow> c * s < - 0.01)"
proof (intro conjI impI)
  assume h: "s > 0.01"
  then have "1 * s \<le> c * s" using assms by (intro mult_right_mono) auto
  then show "c * s > 0.01" using h by linarith
next
  assume h: "s < - 0.01"
  then have "c * s \<le> 1 * s" using assms by (intro mult_right_mono_neg) auto
  then show "c * s < - 0.01" using h by linarith
qed

lemma scale_down_keeps_stable:
  fixes s c :: real
  assumes "0 < c" "c \<le> 1" "\<not> s > 0.01" "\<not> s < - 0.01"
  shows "\<not> c * s > 0.01 \<and> \<not> c * s < - 0.01"
proof (cases "0 \<le> s")
  case True
  then have "c * s \<le> 1 * s" using assms by (intro mult_right_mono) auto
  moreover have "0 \<le> c * s" using True assms by simp
  ultimately show ?thesis using assms by linarith
next
  case False
  then have "1 * s \<le> c * s" using assms by (intro mult_right_mono_neg) auto
  moreover have "c * s \<le> 0" using False assms by (simp add: mult_nonneg_nonpos)
  ultimately show ?thesis using assms by linarith
qed

text \<open>
  Claim C2, as the code has it. When \<open>detect_trend_direction\<close> returns on a series, it
  returns on the series scaled by \<open>c > 0\<close> and on the negated series. Scaling multiplies
  the slope by \<open>c\<close>: it never turns Upward into Downward or Downward into Upward, it
  keeps Upward and Downward when \<open>c \<ge> 1\<close> and keeps Stable when \<open>c \<le> 1\<close>. Negation
  maps Upward to Downward, Downward to Upward and Stable to Stable.
\<close>

theorem trend_direction_scale_negate:
  assumes ret: "detect_trend_direction series w = Inr t" and c: "0 < c"
  shows "\<exists>ts tn.
      detect_trend_direction (map ((*) c) series) w = Inr ts \<and>
      detect_trend_direction (map uminus series) w = Inr tn \<and>
      slope ts = c * slope t \<and>
      (direction t = ''Upward'' \<longrightarrow> direction ts \<noteq> ''Downward'') \<and>
      (direction t = ''Downward'' \<longrightarrow> direction ts \<noteq> ''Upward'') \<and>
      (1 \<le> c \<longrightarrow> direction t \<noteq> ''Stable'' \<longrightarrow> direction ts = direction t) \<and>
      (c \<le> 1 \<longrightarrow> direction t = ''Stable'' \<longrightarrow> direction ts = ''Stable'') \<and>
      slope tn = - slope t \<and>
      (direction t = ''Upward'' \<longrightarrow> direction tn = ''Downward'') \<and>
      (direction t = ''Downward'' \<longrightarrow> direction tn = ''Upward'') \<and>
      (direction t = ''Stable'' \<longrightarrow> direction tn = ''Stable'')"
proof -
  from trend_scaled[OF ret, of c] obtain ts where
    ts: "detect_trend_direction (map ((*) c) series) w = Inr ts" "slope ts = c * slope t"
    "direction ts = (if c * slope t > 0.01 then ''Upward''
                          else if c * slope t < - 0.01 then ''Downward''
                          else ''Stable'')" by blast
  from trend_scaled[OF ret, of "- 1"] obtain tn where
    tn: "detect_trend_direction (map uminus series) w = Inr tn" "slope tn = - slope t"
    "direction tn = (if - slope t > 0.01 then ''Upward''
                          else if - slope t < - 0.01 then ''Downward''
                          else ''Stable'')"
    by (auto simp: uminus_as_scale)
  note d = trend_direction_cases[OF ret]
  have 1: "direction t = ''Upward'' \<longrightarrow> direction ts \<noteq> ''Downward''"
    using d ts(3) scale_keeps_sign[OF c, of "slope t"] by (auto split: if_splits)
  have 2: "direction t = ''Downward'' \<longrightarrow> direction ts \<noteq> ''Upward''"
    using d ts(3) scale_keeps_sign[OF c, of "slope t"] by (auto split: if_splits)
  have 3: "1 \<le> c \<longrightarrow> direction t \<noteq> ''Stable'' \<longrightarrow> direction ts = direction t"
    using d ts(3) scale_up_keeps_class[of c "slope t"] by (auto split: if_splits)
  have 4: "c \<le> 1 \<longrightarrow> direction t = ''Stable'' \<longrightarrow> direction ts = ''Stable''"
    using d ts(3) scale_down_keeps_stable[OF c, of "slope t"] by (auto split: if_splits)
  have 5: "(direction t = ''Upward'' \<longrightarrow> direction tn = ''Downward'') \<and>
      (direction t = ''Downward'' \<longrightarrow> direction tn = ''Upward'') \<and>
      (direction t = ''Stable'' \<longrightarrow> direction tn = ''Stable'')"
    using d tn(3) by (auto split: if_splits)
  show ?thesis using ts(1,2) tn(1,2) 1 2 3 4 5 by blast
qed

lemma trend_01: "detect_trend_direction [0, 1] 30 =
   Inr \<lparr>direction = ''Upward'', slope = 1, strength = Fin 1, moving_average = Some NotANumber\<rparr>"
  by (simp add: detect_trend_direction_def LinearRegression_fit_def predict_def arange_def
      ebind_def sxx_def sxy_def mean_def Let_def power2_eq_square r2_score_def series_rolling_mean_def)

text \<open>
  The theorem at the series \<open>[0, 1]\<close> and \<open>c = 2\<close>.
\<close>

theorem trend_direction_scale_negate_witness:
  "map_sum id direction (detect_trend_direction (map ((*) 2) [0, 1]) 30) = Inr ''Upward'' \<and>
   map_sum id direction (detect_trend_direction (map uminus [0, 1]) 30) = Inr ''Downward''"
  using trend_direction_scale_negate[of "[0, 1]" 30 _ 2, OF trend_01]
  by auto

text \<open>
  Claim C2 as stated fails: \<open>[0, 1]\<close> is Upward (slope \<open>1\<close>), and scaled by the
  positive constant \<open>1/1000\<close> it is Stable (slope \<open>0.001\<close>), because the thresholds
  \<open>\<plusminus>0.01\<close> are absolute.
\<close>

theorem trend_direction_scale_counterexample:
  "map_sum id direction (detect_trend_direction [0, 1] 30) = Inr ''Upward'' \<and>
   map_sum id direction (detect_trend_direction (map ((*) (1 / 1000)) [0, 1]) 30) = Inr ''Stable''"
  by (simp add: detect_trend_direction_def LinearRegression_fit_def predict_def arange_def
      ebind_def sxx_def sxy_def mean_def Let_def power2_eq_square r2_score_def series_rolling_mean_def)

subsection \<open>Peaks and troughs\<close>

lemma plateau_end_le: "i_ahead \<le> length x - 1 \<Longrightarrow> plateau_end x i i_ahead \<le> length x - 1"
proof (induction x i i_ahead rule: plateau_end.induct)
  case (1 x i i_ahead)
  show ?case
  proof (cases "i_ahead < length x - 1 \<and> x ! i_ahead = x ! i")
    case True
    then have "plateau_end x i i_ahead = plateau_end x i (Suc i_ahead)"
      by (subst plateau_end.simps) simp
    moreover have "plateau_end x i (Suc i_ahead) \<le> length x - 1"
      using "1.IH"[OF True] True by simp
    ultimately show ?thesis by simp
  next
    case False
    then have "plateau_end x i i_ahead = i_ahead"
      by (subst plateau_end.simps) auto
    then show ?thesis using "1.prems" by simp
  qed
qed

lemma local_maxima_from_bound: "p \<in> set (local_maxima_from x i) \<Longrightarrow> p < length x"
proof (induction x i arbitrary: p rule: local_maxima_from.induct)
  case (1 x i)
  show ?case
  proof (cases "i < length x - 1")
    case False
    then have "local_maxima_from x i = []" by (subst local_maxima_from.simps) simp
    with "1.prems" show ?thesis by simp
  next
    case lt: True
    show ?thesis
    proof (cases "x ! (i - 1) < x ! i")
      case False
      then have "local_maxima_from x i = local_maxima_from x (Suc i)"
        using lt by (subst local_maxima_from.simps) simp
      with "1.prems" "1.IH"(3)[OF lt False] show ?thesis by simp
    next
      case rise: True
      define ia where "ia = plateau_end x i (i + 1)"
      have ge: "i + 1 \<le> ia" unfolding ia_def by (rule plateau_end_ge)
      have le: "ia \<le> length x - 1" unfolding ia_def using lt by (intro plateau_end_le) simp
      show ?thesis
      proof (cases "x ! ia < x ! i")
        case True
        then have "local_maxima_from x i = ((i + (ia - 1)) div 2) # local_maxima_from x (Suc ia)"
          using lt rise by (subst local_maxima_from.simps) (simp add: ia_def Let_def)
        with "1.prems" consider "p = (i + (ia - 1)) div 2" | "p \<in> set (local_maxima_from x (Suc ia))"
          by auto
        then show ?thesis
        proof cases
          case 1
          then show ?thesis using ge le lt by simp
        next
          case 2
          then show ?thesis using "1.IH"(1)[OF lt rise ia_def True] by simp
        qed
      next
        case False
        then have "local_maxima_from x i = local_maxima_from x (Suc i)"
          using lt rise by (subst local_maxima_from.simps) (simp add: ia_def Let_def)
        with "1.prems" "1.IH"(2)[OF lt rise ia_def False] show ?thesis by simp
      qed
    qed
  qed
qed

lemma find_peaks_bound: "p \<in> set (find_peaks x prominence) \<Longrightarrow> p < length x"
  by (auto simp: find_peaks_def local_maxima_1d_def dest: local_maxima_from_bound)

lemma take_positions_find_peaks:
  "length y = length x \<Longrightarrow> take_positions x (find_peaks y prominence) = Inr (map ((!) x) (find_peaks y prominence))"
  using find_peaks_bound[of _ y prominence] by (auto simp: take_positions_def)

text \<open>
  Claim C8, as the code has it. \<open>identify_peaks_and_troughs\<close> returns on every series.
  The peaks are those of the series and the troughs are the peaks of the negated series,
  found by the same search with the same minimum prominence, their values read from the
  series itself. The minimum prominence is the caller's, and the constant \<open>0.1\<close> when
  the caller gives none: it is not scaled by the series.
\<close>

theorem identify_peaks_and_troughs_spec:
  "\<exists>r. identify_peaks_and_troughs series prominence_arg = Inr r \<and>
     peak_indices r = find_peaks series (case prominence_arg of None \<Rightarrow> 1 / 10 | Some p \<Rightarrow> p) \<and>
     trough_indices r =
       find_peaks (map uminus series) (case prominence_arg of None \<Rightarrow> 1 / 10 | Some p \<Rightarrow> p) \<and>
     peak_values r = map ((!) series) (peak_indices r) \<and>
     trough_values r = map ((!) series) (trough_indices r) \<and>
     peak_count r = length (peak_indices r) \<and>
     trough_count r = length (trough_indices r)"
  by (simp add: identify_peaks_and_troughs_def Let_def ebind_def take_positions_find_peaks)

lemma lm_ex: "local_maxima_1d [0, 3, 14 / 5, 4, 0] = [1, 3]"
  by code_simp

lemma fp_ex1: "find_peaks [0, 3, 14 / 5, 4, 0] (1 / 10) = [1, 3]"
  by code_simp

lemma fp_ex2: "find_peaks [0, 3, 14 / 5, 4, 0] (1 / 10 * (4 - 0)) = [3]"
  by code_simp

lemma fp_ex3: "find_peaks (map uminus [0, 3, 14 / 5, 4, 0]) (1 / 10) = [2]"
  by code_simp

text \<open>
  The theorem at the series \<open>[0, 3, 2.8, 4, 0]\<close> with the default prominence.
\<close>

theorem identify_peaks_and_troughs_spec_witness:
  "map_sum id trough_indices (identify_peaks_and_troughs [0, 3, 14 / 5, 4, 0] None) = Inr [2] \<and>
   map_sum id trough_values (identify_peaks_and_troughs [0, 3, 14 / 5, 4, 0] None) = Inr [14 / 5]"
  using identify_peaks_and_troughs_spec[of "[0, 3, 14 / 5, 4, 0]" None] fp_ex3
  by auto

text \<open>
  Claim C8 as stated fails. The series \<open>[0, 3, 2.8, 4, 0]\<close> has range \<open>4\<close>; the peak at
  position \<open>1\<close> has prominence \<open>0.2\<close>. By default it is reported, since
  \<open>0.2 \<ge> 0.1\<close>; a minimum prominence of 10% of the range, \<open>0.4\<close>, leaves it out.
\<close>

theorem default_prominence_counterexample:
  "map_sum id peak_indices (identify_peaks_and_troughs [0, 3, 14 / 5, 4, 0] None) = Inr [1, 3] \<and>
   map_sum id peak_indices
     (identify_peaks_and_troughs [0, 3, 14 / 5, 4, 0] (Some (1 / 10 * (4 - 0)))) = Inr [3]"
  using fp_ex1 fp_ex2
  by (simp add: identify_peaks_and_troughs_def Let_def ebind_def take_positions_find_peaks)

subsection \<open>Linear trend forecast\<close>

lemma arange_length: "length (arange a b) = b - a"
  by (simp add: arange_def)

lemma arange_shift: "arange n (n + steps) = map (\<lambda>k. real (n + k)) [0..<steps]"
  unfolding arange_def
  by (rule nth_equalityI) (auto simp: nth_upt)

lemma check_finite_Fin: "check_finite (map Fin ys) = Inr ys"
  by (induction ys) (auto simp: ebind_def)

lemma check_finite_error: "check_finite series = Inl e \<Longrightarrow> e = ValueError"
  by (induction series rule: check_finite.induct) (auto simp: ebind_def split: sum.splits)

lemma check_finite_refuses:
  "v \<in> set series \<Longrightarrow> \<forall>r. v \<noteq> Fin r \<Longrightarrow> check_finite series = Inl ValueError"
  by (induction series rule: check_finite.induct) (auto simp: ebind_def split: sum.splits)

lemma forecast_no_steps:
  assumes "steps \<le> 0"
  shows "forecast_linear_trend series steps = Inl ValueError"
proof (cases "check_finite series")
  case (Inl e)
  with check_finite_error[OF Inl] show ?thesis
    by (simp add: forecast_linear_trend_def ebind_def)
next
  case (Inr ys)
  have "arange (length series) (nat (int (length series) + steps)) = []"
    using assms by (simp add: arange_def)
  with Inr show ?thesis
    by (simp add: forecast_linear_trend_def ebind_def predict_def
        LinearRegression_fit_def Let_def)
qed

lemma forecast_not_finite:
  assumes "v \<in> set series" "\<forall>r. v \<noteq> Fin r"
  shows "forecast_linear_trend series steps = Inl ValueError"
  using check_finite_refuses[OF assms]
  by (simp add: forecast_linear_trend_def ebind_def)

text \<open>
  Claim C7. The series \<open>[100, 110, \<dots>, 190]\<close> with horizon 1 gives the forecast 200. For
  a series of at least two finite values and a horizon of at least one step, the forecast
  succeeds: the regression over the index \<open>0, \<dots>, n - 1\<close> has a fit, this fit has the
  least squared error among all lines, and the forecast is this one line at the indexes
  \<open>n, \<dots>, n + steps - 1\<close>. The forecast does not succeed for every series of at least
  two points: with a horizon of 0 or less it raises \<open>ValueError\<close> whatever the series,
  and a series that holds a missing or an infinite value raises \<open>ValueError\<close> whatever
  the horizon.
\<close>

theorem forecast_linear_trend_ols:
  "(2 \<le> length ys \<and> 0 < steps \<longrightarrow>
     (\<exists>lr. LinearRegression_fit (arange 0 (length ys)) ys = Inr lr \<and>
        (\<forall>a b. sse (intercept lr) (coef lr) (arange 0 (length ys)) ys
                \<le> sse a b (arange 0 (length ys)) ys) \<and>
        forecast_linear_trend (map Fin ys) steps =
          Inr \<lparr>forecast = map (\<lambda>k. intercept lr + coef lr * real (length ys + k)) [0..<nat steps],
               model = ''Linear Trend''\<rparr>)) \<and>
   (steps \<le> 0 \<longrightarrow> forecast_linear_trend series steps = Inl ValueError) \<and>
   ((\<exists>v\<in>set series. \<forall>r. v \<noteq> Fin r) \<longrightarrow> forecast_linear_trend series steps = Inl ValueError) \<and>
   forecast_linear_trend (map Fin [100, 110, 120, 130, 140, 150, 160, 170, 180, 190]) 1 =
     Inr \<lparr>forecast = [200], model = ''Linear Trend''\<rparr>"
proof (intro conjI impI)
  assume h: "2 \<le> length ys \<and> 0 < steps"
  let ?X = "arange 0 (length ys)"
  have len: "length ?X = length ys" by (simp add: arange_length)
  have ne: "?X \<noteq> []" using h len by (metis length_0_conv not_numeral_le_zero)
  from fit_ok[OF ne] obtain lr where fit: "LinearRegression_fit ?X ys = Inr lr" by blast
  have opt: "\<forall>a b. sse (intercept lr) (coef lr) ?X ys \<le> sse a b ?X ys"
    using ols_optimal[OF len ne fit] by blast
  have pos: "nat (int (length ys) + steps) = length ys + nat steps"
    using h by (simp add: nat_add_distrib)
  have fut: "arange (length ys) (length ys + nat steps) \<noteq> []"
    using h by (simp add: arange_def)
  have "forecast_linear_trend (map Fin ys) steps =
          Inr \<lparr>forecast = map (\<lambda>k. intercept lr + coef lr * real (length ys + k)) [0..<nat steps],
               model = ''Linear Trend''\<rparr>"
    unfolding forecast_linear_trend_def Let_def
    using fit fut by (simp add: pos ebind_def predict_def arange_shift o_def check_finite_Fin)
  with fit opt show "\<exists>lr. LinearRegression_fit ?X ys = Inr lr \<and>
        (\<forall>a b. sse (intercept lr) (coef lr) ?X ys \<le> sse a b ?X ys) \<and>
        forecast_linear_trend (map Fin ys) steps =
          Inr \<lparr>forecast = map (\<lambda>k. intercept lr + coef lr * real (length ys + k)) [0..<nat steps],
               model = ''Linear Trend''\<rparr>" by blast
next
  assume "steps \<le> 0"
  then show "forecast_linear_trend series steps = Inl ValueError" by (rule forecast_no_steps)
next
  assume "\<exists>v\<in>set series. \<forall>r. v \<noteq> Fin r"
  then show "forecast_linear_trend series steps = Inl ValueError"
    using forecast_not_finite by blast
next
  have "forecast_linear_trend (map Fin [100, 110, 120, 130, 140, 150, 160, 170, 180, 190]) 1 =
     Inr \<lparr>forecast = [200], model = ''Linear Trend''\<rparr>"
    unfolding forecast_linear_trend_def check_finite_Fin
    by (simp add: LinearRegression_fit_def predict_def arange_def upt_rec
        ebind_def sxx_def sxy_def mean_def Let_def power2_eq_square)
  then show "forecast_linear_trend (map Fin [100, 110, 120, 130, 140, 150, 160, 170, 180, 190]) 1 =
     Inr \<lparr>forecast = [200], model = ''Linear Trend''\<rparr>" .
qed

theorem forecast_linear_trend_ols_witness:
  "map_sum id forecast (forecast_linear_trend (map Fin [1, 2, 4]) 2) = Inr [16 / 3, 41 / 6]"
proof -
  have "2 \<le> length [1, 2, 4 :: real] \<and> 0 < (2 :: int)" by simp
  with forecast_linear_trend_ols[of "[1, 2, 4]" 2] obtain lr where
    fit: "LinearRegression_fit (arange 0 (length [1, 2, 4 :: real])) [1, 2, 4] = Inr lr" and
    fc: "forecast_linear_trend (map Fin [1, 2, 4]) 2 =
          Inr \<lparr>forecast = map (\<lambda>k. intercept lr + coef lr * real (length [1, 2, 4 :: real] + k)) [0..<nat 2],
               model = ''Linear Trend''\<rparr>" by blast
  have "LinearRegression_fit (arange 0 (length [1, 2, 4 :: real])) [1, 2, 4]
      = Inr \<lparr>coef = 3 / 2, intercept = 5 / 6\<rparr>"
    by (simp add: LinearRegression_fit_def arange_def sxx_def sxy_def mean_def Let_def
        power2_eq_square)
  with fit have "coef lr = 3 / 2" "intercept lr = 5 / 6" by auto
  with fc show ?thesis by (simp add: upt_rec numeral_2_eq_2)
qed

text \<open>
  Two points do not suffice: a horizon of 0, and a missing value with a horizon of 1.
\<close>

theorem forecast_linear_trend_counterexample:
  "forecast_linear_trend [Fin 1, Fin 2] 0 = Inl ValueError \<and>
   forecast_linear_trend [Fin 1, NotANumber] 1 = Inl ValueError"
  by (simp add: forecast_linear_trend_def ebind_def arange_def predict_def
      LinearRegression_fit_def Let_def)


section \<open>Properties of the anomaly detection\<close>

subsection \<open>The methods compute their tables in a new object\<close>

lemma map_of_put: "map_of (put k v al) = (map_of al)(k \<mapsto> v)"
  by (induction al) (auto simp: fun_eq_iff)




lemma getitem_setitem:
  "setitem t name vals = Inr t' \<Longrightarrow>
   getitem t' k = (if k = name then Inr vals else getitem t k)"
  by (auto simp: setitem_def getitem_def map_of_put split: if_splits)

lemma nrows_setitem: "setitem t name vals = Inr t' \<Longrightarrow> nrows t' = nrows t"
  by (auto simp: setitem_def split: if_splits)

lemma prefixed_neq: "p \<noteq> [] \<Longrightarrow> p @ c \<noteq> c"
  by simp

lemma ma_neq [simp]: "CHR ''m'' # CHR ''a'' # CHR ''_'' # c \<noteq> c"
  using prefixed_neq[of "''ma_''" c] by simp

lemma std_neq [simp]: "CHR ''s'' # CHR ''t'' # CHR ''d'' # CHR ''_'' # c \<noteq> c"
  using prefixed_neq[of "''std_''" c] by simp

lemma ma_neq' [simp]: "c \<noteq> CHR ''m'' # CHR ''a'' # CHR ''_'' # c"
  using ma_neq[of c] by metis

lemma std_neq' [simp]: "c \<noteq> CHR ''s'' # CHR ''t'' # CHR ''d'' # CHR ''_'' # c"
  using std_neq[of c] by metis

lemma runs_detect_zscore:
  assumes "data < length st" "base \<le> length st"
  shows "runs base st (detect_zscore data column threshold st)
           (zscore_table (st ! data) column threshold)"
  using assms
  by (auto simp: runs_def detect_zscore_def zscore_table_def and_then_def copy_def load_def
      assign_def ret_def ebind_def Let_def getitem_setitem nrows_setitem
      split: sum.splits)

lemma runs_detect_iqr:
  assumes "data < length st" "base \<le> length st"
  shows "runs base st (detect_iqr data column multiplier st)
           (iqr_table (st ! data) column multiplier)"
  using assms
  by (auto simp: runs_def detect_iqr_def iqr_table_def iqr_lower_def iqr_upper_def
      and_then_def copy_def load_def assign_scalar_def
      assign_def ret_def ebind_def Let_def getitem_setitem nrows_setitem
      split: sum.splits)

lemma runs_detect_moving_average_deviation:
  assumes "data < length st" "base \<le> length st"
  shows "runs base st (detect_moving_average_deviation data column window threshold st)
           (ma_table (st ! data) column window threshold)"
  using assms
  by (auto simp: runs_def detect_moving_average_deviation_def ma_table_def ma_deviation_def
      ma_flags_def and_then_def copy_def load_def
      assign_def ret_def ebind_def Let_def getitem_setitem nrows_setitem
      split: sum.splits)

lemma runs_detect_isolation_forest:
  assumes "data < length st" "base \<le> length st"
  shows "runs base st (detect_isolation_forest iso_forest data features st)
           (forest_table iso_forest (st ! data) features)"
  using assms
  by (auto simp: runs_def detect_isolation_forest_def forest_table_def
      and_then_def copy_def load_values_def lift_def
      assign_def ret_def ebind_def Let_def getitem_setitem nrows_setitem
      split: sum.splits)


lemma runs_copy:
  "base \<le> length st \<Longrightarrow> runs base st (copy data st) (Inr (st ! data))"
  by (simp add: runs_def copy_def)

lemma runs_ret:
  "df = length st - 1 \<Longrightarrow> base < length st \<Longrightarrow> runs base st (ret df st) (Inr (st ! df))"
  by (cases st rule: rev_cases) (auto simp: runs_def ret_def)

lemma runs_sort_values:
  "base \<le> length st \<Longrightarrow> runs base st (sort_values df by st) (sort_table (st ! df) by)"
  by (auto simp: runs_def sort_values_def sort_table_def and_then_def load_def alloc_def
      ebind_def split: sum.splits)

lemma runs_and_then:
  assumes first: "runs base st (m st) r1"
    and second: "\<And>st' t. r1 = Inr t \<Longrightarrow> m st = (Inr (length st' - 1), st') \<Longrightarrow>
        length st \<le> length st' \<Longrightarrow> base < length st' \<Longrightarrow> last st' = t \<Longrightarrow>
        runs base st' (f (length st' - 1) st') (g t)"
  shows "runs base st (and_then m f st) (ebind r1 g)"
proof (cases r1)
  case (Inl e)
  with first show ?thesis
    by (cases "m st") (auto simp: runs_def and_then_def ebind_def)
next
  case (Inr t)
  obtain r st' where out: "m st = (r, st')" by (cases "m st")
  with first Inr have r: "r = Inr (length st' - 1)" and len: "length st \<le> length st'"
    and base: "base < length st'" and lst: "last st' = t"
    and frame: "take base st' = take base st"
    by (auto simp: runs_def)
  have "runs base st' (f (length st' - 1) st') (g t)"
    using second[OF Inr _ len base lst] out r by simp
  then show ?thesis
    using out r Inr len frame by (auto simp: runs_def and_then_def ebind_def split: sum.splits)
qed

lemma last_nth: "st \<noteq> [] \<Longrightarrow> st ! (length st - Suc 0) = last st"
  by (simp add: last_conv_nth)

lemma runs_detect_columns:
  "base < length st \<Longrightarrow>
   runs base st (detect_columns date_column cs (length st - 1) st)
     (columns_table date_column cs (last st))"
proof (induction cs arbitrary: st)
  case Nil
  then have "st \<noteq> []" by auto
  with Nil show ?case using runs_ret[of "length st - 1" st base] by (simp add: last_nth)
next
  case (Cons col rest)
  have ne: "st \<noteq> []" using Cons.prems by auto
  have df: "length st - 1 < length st" using Cons.prems by simp
  have le: "base \<le> length st" using Cons.prems by simp
  show ?case
    unfolding detect_columns.simps columns_table.simps
  proof (rule runs_and_then, goal_cases)
    case 1
    show ?case using runs_detect_zscore[OF df le, of col 3] ne by (simp add: last_nth)
  next
    case (2 st1 t1)
    have ne1: "st1 \<noteq> []" using 2 by auto
    show ?case
    proof (rule runs_and_then, goal_cases)
      case 1
      show ?case
        using runs_detect_iqr[of "length st1 - 1" st1 base col "1.5"] 2 ne1
        by (simp add: last_nth)
    next
      case (2 st2 t2)
      have ne2: "st2 \<noteq> []" using 2 by auto
      show ?case
      proof (rule runs_and_then, goal_cases)
        case 1
        show ?case
        proof (cases "truthy date_column")
          case True
          then show ?thesis
            using runs_detect_moving_average_deviation[of "length st2 - 1" st2 base col 7 2] 2 ne2
            by (simp add: last_nth)
        next
          case False
          then show ?thesis
            using runs_ret[of "length st2 - 1" st2 base] 2 ne2
            by (simp add: last_nth)
        qed
      next
        case (2 st3 t3)
        then show ?case using Cons.IH[of st3] by simp
      qed
    qed
  qed
qed

lemma runs_consensus:
  assumes "base < length st"
  shows "runs base st
     (and_then (load_columns (length st - 1)) (\<lambda>names.
        let anomaly_columns = filter (is_in ''is_anomaly'') names
        in and_then (load_values (length st - 1) anomaly_columns) (\<lambda>X.
           and_then (assign (length st - 1) ''anomaly_count'' (row_sums X)) (\<lambda>_.
           and_then (load (length st - 1) ''anomaly_count'') (\<lambda>counts.
           and_then (assign (length st - 1) ''is_anomaly_consensus''
                       (map (\<lambda>c. Flag (at_least c 2)) counts)) (\<lambda>_.
           ret (length st - 1)))))) st)
     (consensus_table (last st))"
proof -
  have ne: "st \<noteq> []" using assms by auto
  show ?thesis
    using assms ne
    by (auto simp: runs_def consensus_table_def and_then_def load_columns_def load_values_def
        load_def assign_def ret_def ebind_def Let_def last_nth last_list_update
        split: sum.splits)
qed

lemma runs_detect_all:
  assumes "data < length st"
  shows "runs (length st) st (detect_all iso_forest data numeric_columns date_column st)
           (all_table iso_forest (st ! data) numeric_columns date_column)"
proof -
  have all: "all_table iso_forest (st ! data) numeric_columns date_column =
     ebind (Inr (st ! data)) (\<lambda>t.
     ebind (if truthy date_column then sort_table t (the date_column) else Inr t) (\<lambda>t.
     ebind (forest_table iso_forest t numeric_columns) (\<lambda>t.
     ebind (columns_table date_column numeric_columns t) consensus_table)))"
    by (simp add: all_table_def ebind_def)
  show ?thesis
    unfolding detect_all_def all
  proof (rule runs_and_then, goal_cases)
    case 1
    show ?case by (rule runs_copy) simp
  next
    case (2 st1 t1)
    have ne1: "st1 \<noteq> []" using 2 by auto
    show ?case
    proof (rule runs_and_then, goal_cases)
      case 1
      show ?case
      proof (cases "truthy date_column")
        case True
        then show ?thesis
          using runs_sort_values[of "length st" st1 "length st1 - 1" "the date_column"] 2 ne1
          by (simp add: last_nth)
      next
        case False
        then show ?thesis
          using runs_ret[of "length st1 - 1" st1 "length st"] 2 ne1 by (simp add: last_nth)
      qed
    next
      case (2 st2 t2)
      have ne2: "st2 \<noteq> []" using 2 by auto
      show ?case
      proof (rule runs_and_then, goal_cases)
        case 1
        show ?case
          using runs_detect_isolation_forest[of "length st2 - 1" st2 "length st" iso_forest
              numeric_columns] 2 ne2
          by (simp add: last_nth)
      next
        case (2 st3 t3)
        show ?case
        proof (rule runs_and_then, goal_cases)
          case 1
          show ?case using runs_detect_columns[of "length st" st3] 2 by simp
        next
          case (2 st4 t4)
          then show ?case using runs_consensus[of "length st" st4] by simp
        qed
      qed
    qed
  qed
qed


subsection \<open>The input is left unchanged\<close>

lemma runs_frame:
  assumes "runs (length st) st out res"
  shows "length st \<le> length (snd out) \<and> take (length st) (snd out) = st \<and>
     (\<forall>df. fst out = Inr df \<longrightarrow> length st \<le> df \<and> df < length (snd out))"
  using assms by (cases res) (auto simp: runs_def)

text \<open>
  Claim C9. Each detection method, run on a reference \<open>data\<close> of the store, leaves every
  object that existed before the call as it was, in particular the caller's input, whether
  it returns or raises; when it returns, the result is a reference to an object that did
  not exist before the call, so it is not the input.
\<close>

theorem detection_methods_leave_input:
  assumes "data < length st"
  shows "\<forall>out \<in> {detect_zscore data column threshold st,
                   detect_iqr data column multiplier st,
                   detect_moving_average_deviation data column window ma_threshold st,
                   detect_isolation_forest iso_forest data features st,
                   detect_all iso_forest data numeric_columns date_column st}.
           length st \<le> length (snd out) \<and> take (length st) (snd out) = st \<and>
           snd out ! data = st ! data \<and>
           (\<forall>df. fst out = Inr df \<longrightarrow> length st \<le> df \<and> df < length (snd out) \<and> df \<noteq> data)"
proof -
  have k: "\<And>out res. runs (length st) st out res \<Longrightarrow>
           length st \<le> length (snd out) \<and> take (length st) (snd out) = st \<and>
           snd out ! data = st ! data \<and>
           (\<forall>df. fst out = Inr df \<longrightarrow> length st \<le> df \<and> df < length (snd out) \<and> df \<noteq> data)"
  proof -
    fix out res assume r: "runs (length st) st out res"
    note f = runs_frame[OF r]
    have "snd out ! data = take (length st) (snd out) ! data" using assms by simp
    with f have "snd out ! data = st ! data" by simp
    with f assms show "length st \<le> length (snd out) \<and> take (length st) (snd out) = st \<and>
           snd out ! data = st ! data \<and>
           (\<forall>df. fst out = Inr df \<longrightarrow> length st \<le> df \<and> df < length (snd out) \<and> df \<noteq> data)"
      by auto
  qed
  show ?thesis
    using k[OF runs_detect_zscore[OF assms order_refl]]
      k[OF runs_detect_iqr[OF assms order_refl]]
      k[OF runs_detect_moving_average_deviation[OF assms order_refl]]
      k[OF runs_detect_isolation_forest[OF assms order_refl]]
      k[OF runs_detect_all[OF assms]]
    by blast
qed

text \<open>
  The theorem on a store that holds the example table only.
\<close>

theorem detection_methods_leave_input_witness:
  "snd (detect_zscore 0 ''x'' 3 [example_table]) ! 0 = example_table \<and>
   snd (detect_iqr 0 ''x'' 1.5 [example_table]) ! 0 = example_table \<and>
   snd (detect_moving_average_deviation 0 ''x'' 7 2 [example_table]) ! 0 = example_table \<and>
   snd (detect_isolation_forest example_forest 0 [''x''] [example_table]) ! 0 = example_table \<and>
   snd (detect_all example_forest 0 [''x''] None [example_table]) ! 0 = example_table"
proof -
  have "(0::nat) < length [example_table]" by simp
  from detection_methods_leave_input[OF this, of "''x''" 3 "1.5" 7 2 example_forest "[''x'']" "[''x'']" None]
  show ?thesis by simp
qed


subsection \<open>The summary\<close>

lemma getitem_columns: "name \<in> set (columns t) \<Longrightarrow> \<exists>xs. getitem t name = Inr xs"
  by (auto simp: getitem_def columns_def split: option.splits dest: weak_map_of_SomeI)

lemma sum_columns_ok:
  "set names \<subseteq> set (columns t) \<Longrightarrow>
   \<exists>counts. sum_columns t names = Inr counts \<and> map fst counts = names \<and>
     (\<forall>(c, v)\<in>set counts. \<exists>xs. getitem t c = Inr xs \<and> v = column_sum xs)"
proof (induction names)
  case Nil
  then show ?case by simp
next
  case (Cons n names)
  then obtain counts where c: "sum_columns t names = Inr counts" "map fst counts = names"
    "\<forall>(c, v)\<in>set counts. \<exists>xs. getitem t c = Inr xs \<and> v = column_sum xs" by auto
  from Cons.prems obtain xs where xs: "getitem t n = Inr xs"
    using getitem_columns[of n t] by auto
  show ?case using c xs by (auto simp: ebind_def)
qed

lemma present_flags:
  "\<forall>c\<in>set xs. \<exists>b. c = Flag b \<Longrightarrow>
   sum_list (present xs) = real (length (filter (\<lambda>c. c = Flag True) xs))"
proof (induction xs)
  case Nil
  then show ?case by (simp add: present_def)
next
  case (Cons c xs)
  then obtain b where b: "c = Flag b" by auto
  have "present (c # xs) = (if b then 1 else 0) # present xs"
    by (simp add: present_def cell_value_def b)
  with Cons b show ?case by (cases b) auto
qed

text \<open>
  Claim C10. On a table without a column \<open>is_anomaly_consensus\<close>,
  \<open>get_anomaly_summary\<close> returns and leaves the store as it is: the consensus count is
  \<open>0\<close>, the total is the number of rows, and the method counts list, in column order,
  every column whose label contains \<open>is_anomaly\<close> with the sum of that column, which for a
  column of booleans is the number of \<open>True\<close> cells.
\<close>

theorem summary_without_consensus:
  assumes "''is_anomaly_consensus'' \<notin> set (columns (st ! data))"
  shows "\<exists>s. get_anomaly_summary data st = (Inr s, st) \<and>
     consensus_anomalies s = 0 \<and>
     total_records s = nrows (st ! data) \<and>
     map fst (method_counts s) = filter (is_in ''is_anomaly'') (columns (st ! data)) \<and>
     (\<forall>(c, v)\<in>set (method_counts s). \<exists>xs. getitem (st ! data) c = Inr xs \<and>
        v = column_sum xs \<and>
        ((\<forall>x\<in>set xs. \<exists>b. x = Flag b) \<longrightarrow> v = real (length (filter (\<lambda>x. x = Flag True) xs))))"
proof -
  let ?names = "filter (is_in ''is_anomaly'') (columns (st ! data))"
  have "set ?names \<subseteq> set (columns (st ! data))" by auto
  from sum_columns_ok[OF this] obtain counts where c: "sum_columns (st ! data) ?names = Inr counts"
    "map fst counts = ?names"
    "\<forall>(c, v)\<in>set counts. \<exists>xs. getitem (st ! data) c = Inr xs \<and> v = column_sum xs" by blast
  have run: "get_anomaly_summary data st =
     (Inr \<lparr>total_records = nrows (st ! data), method_counts = counts, consensus_anomalies = 0\<rparr>, st)"
    using assms c(1)
    by (simp add: get_anomaly_summary_def and_then_def load_columns_def ret_def lift_def Let_def)
  have "\<forall>(c, v)\<in>set counts. \<exists>xs. getitem (st ! data) c = Inr xs \<and>
        v = column_sum xs \<and>
        ((\<forall>x\<in>set xs. \<exists>b. x = Flag b) \<longrightarrow> v = real (length (filter (\<lambda>x. x = Flag True) xs)))"
    using c(3) present_flags by (fastforce simp: column_sum_def)
  with run c(2) show ?thesis by simp
qed

text \<open>
  The theorem on a table of three rows with one flag column that holds one \<open>True\<close>.
\<close>

theorem summary_without_consensus_witness:
  "fst (get_anomaly_summary 0 [flagged_table]) =
     Inr \<lparr>total_records = 3, method_counts = [(''is_anomaly_iqr_x'', 1)], consensus_anomalies = 0\<rparr>"
proof -
  have h: "''is_anomaly_consensus'' \<notin> set (columns ([flagged_table] ! 0))"
    by (simp add: flagged_table_def columns_def)
  from summary_without_consensus[OF h] obtain s where
    s: "get_anomaly_summary 0 [flagged_table] = (Inr s, [flagged_table])"
      "consensus_anomalies s = 0" "total_records s = nrows ([flagged_table] ! 0)" by blast
  have "get_anomaly_summary 0 [flagged_table] =
     (Inr \<lparr>total_records = 3, method_counts = [(''is_anomaly_iqr_x'', 1)], consensus_anomalies = 0\<rparr>,
      [flagged_table])"
    by (simp add: get_anomaly_summary_def and_then_def load_columns_def ret_def lift_def Let_def
        flagged_table_def columns_def ebind_def getitem_def column_sum_def present_def
        cell_value_def)
  with s show ?thesis by simp
qed


subsection \<open>Constant series\<close>

lemma present_const_value:
  "\<forall>x\<in>set xs. x = c \<Longrightarrow> cell_value c = Some v \<Longrightarrow> present xs = replicate (length xs) v"
  by (induction xs) (auto simp: present_def)

lemma present_const_missing:
  "\<forall>x\<in>set xs. x = c \<Longrightarrow> cell_value c = None \<Longrightarrow> present xs = []"
  by (induction xs) (auto simp: present_def)

lemma mean_replicate: "0 < n \<Longrightarrow> mean (replicate n v) = v"
  by (simp add: mean_def sum_list_replicate)

lemma map_const: "(\<And>x. x \<in> set xs \<Longrightarrow> f x = k) \<Longrightarrow> map f xs = replicate (length xs) k"
  by (induction xs) auto

lemma zscore_const:
  assumes "\<forall>x\<in>set xs. x = c"
  shows "zscore xs = replicate (length xs) Missing"
proof (cases "cell_value c")
  case None
  show ?thesis unfolding zscore_def Let_def
    by (rule map_const) (use assms None in auto)
next
  case (Some v)
  note p = present_const_value[OF assms Some]
  have sd: "sqrt (mean (map (\<lambda>x. (x - mean (present xs))\<^sup>2) (present xs))) = 0"
  proof (cases "xs = []")
    case True
    then show ?thesis by (simp add: present_def mean_def)
  next
    case False
    then have n: "0 < length xs" by simp
    have m: "mean (present xs) = v" unfolding p by (rule mean_replicate[OF n])
    have "map (\<lambda>x. (x - v)\<^sup>2) (replicate (length xs) v) = replicate (length xs) 0"
      by simp
    then have "mean (map (\<lambda>x. (x - mean (present xs))\<^sup>2) (present xs)) = 0"
      unfolding m unfolding p using mean_replicate[OF n, of 0] by simp
    then show ?thesis by simp
  qed
  show ?thesis unfolding zscore_def Let_def
    by (rule map_const) (use assms Some sd in auto)
qed

lemma quantile_const:
  assumes "\<forall>x\<in>set xs. x = c" "cell_value c = Some v" "xs \<noteq> []" "0 \<le> q" "q \<le> 1"
  shows "quantile xs q = Num v"
proof -
  let ?n = "length xs"
  have n: "0 < ?n" using assms by simp
  note p = present_const_value[OF assms(1,2)]
  have s: "sort (present xs) = replicate ?n v"
    unfolding p by (rule sorted_sort_id) (simp add: sorted_replicate)
  let ?h = "real (?n - 1) * q"
  have h0: "0 \<le> ?h" using assms by simp
  have hle: "?h \<le> real (?n - 1)" using assms by (simp add: mult_left_le)
  have lo: "nat \<lfloor>?h\<rfloor> < ?n"
  proof -
    have "\<lfloor>?h\<rfloor> \<le> int (?n - 1)" using hle by (simp add: floor_le_iff)
    then have "nat \<lfloor>?h\<rfloor> \<le> ?n - 1" by simp
    with n show ?thesis by linarith
  qed
  have hi: "min (nat \<lfloor>?h\<rfloor> + 1) (?n - 1) < ?n" using n by linarith
  show ?thesis
    using n lo hi by (simp add: quantile_def Let_def s)
qed

lemma quantile_missing:
  assumes "\<forall>x\<in>set xs. x = c" "cell_value c = None"
  shows "quantile xs q = Missing"
  by (simp add: quantile_def present_const_missing[OF assms])

lemma iqr_flags_const:
  assumes "\<forall>x\<in>set xs. x = c"
  shows "map (\<lambda>x. Flag (cless x (iqr_lower xs multiplier) \<or> cless (iqr_upper xs multiplier) x)) xs
       = replicate (length xs) (Flag False)"
proof (cases "xs = []")
  case True
  then show ?thesis by simp
next
  case False
  show ?thesis
  proof (cases "cell_value c")
    case None
    have "iqr_lower xs multiplier = Missing" "iqr_upper xs multiplier = Missing"
      by (simp_all add: iqr_lower_def iqr_upper_def quantile_missing[OF assms None] lift2_def
          cell_value_def)
    then have "\<And>x. \<not> (cless x (iqr_lower xs multiplier) \<or> cless (iqr_upper xs multiplier) x)"
      by (simp add: cless_def cell_value_def split: option.splits)
    then show ?thesis by (simp add: map_replicate_const)
  next
    case (Some v)
    have q1: "quantile xs (1 / 4) = Num v" and q3: "quantile xs (3 / 4) = Num v"
      by (rule quantile_const[OF assms Some False]; simp)+
    have lo: "iqr_lower xs multiplier = Num v" and up: "iqr_upper xs multiplier = Num v"
      by (simp_all add: iqr_lower_def iqr_upper_def q1 q3 lift2_def cell_value_def)
    have "\<not> (cless x (Num v) \<or> cless (Num v) x)" if "x \<in> set xs" for x
      using that assms Some by (auto simp: cless_def cell_value_def)
    then have "map (\<lambda>x. Flag (cless x (Num v) \<or> cless (Num v) x)) xs = map (\<lambda>x. Flag False) xs"
      by (intro map_cong) auto
    then show ?thesis by (simp add: lo up map_replicate_const)
  qed
qed


lemma wf_getitem_length: "wf_table t \<Longrightarrow> getitem t name = Inr xs \<Longrightarrow> length xs = nrows t"
  by (auto simp: wf_table_def getitem_def split: option.splits dest!: map_of_SomeD)

lemma runs_result:
  assumes "runs base st out (Inr t)"
  shows "\<exists>df st'. out = (Inr df, st') \<and> base \<le> df \<and> df < length st' \<and> st' ! df = t"
proof -
  obtain r st' where out: "out = (r, st')" by (cases out)
  with assms have r: "r = Inr (length st' - 1)" and b: "base < length st'" and l: "last st' = t"
    by (auto simp: runs_def)
  from b have "st' \<noteq> []" by auto
  then have "st' ! (length st' - 1) = t" using l by (simp add: last_conv_nth)
  with out r b show ?thesis by auto
qed

lemma zscore_table_const:
  assumes wf: "wf_table t" and col: "getitem t column = Inr xs" and c: "\<forall>x\<in>set xs. x = c"
  shows "\<exists>t'. zscore_table t column threshold = Inr t' \<and>
     getitem t' (''is_anomaly_zscore_'' @ column) = Inr (replicate (nrows t) (Flag False))"
proof -
  have len: "length xs = nrows t" by (rule wf_getitem_length[OF wf col])
  show ?thesis
    using len col
    by (simp add: zscore_table_def ebind_def setitem_def getitem_def map_of_put
        zscore_const[OF c] cabs_def cless_def cell_value_def)
qed

lemma iqr_table_const:
  assumes wf: "wf_table t" and col: "getitem t column = Inr xs" and c: "\<forall>x\<in>set xs. x = c"
  shows "\<exists>t'. iqr_table t column multiplier = Inr t' \<and>
     getitem t' (''is_anomaly_iqr_'' @ column) = Inr (replicate (nrows t) (Flag False))"
proof -
  have len: "length xs = nrows t" by (rule wf_getitem_length[OF wf col])
  show ?thesis
    using len col
    by (simp add: iqr_table_def ebind_def setitem_def getitem_def map_of_put
        iqr_flags_const[OF c])
qed

text \<open>
  Claim C5. On a well-formed table whose column holds the same cell in every row (a
  number, or a missing value), \<open>detect_zscore\<close> and \<open>detect_iqr\<close> both return, and the
  flag column of the returned table is \<open>False\<close> in every row. The z-scores of such a
  column are \<open>0/0\<close>, which numpy computes as not-a-number without raising, and a
  comparison with it is false; both quartiles equal the value, so the IQR bounds do too.
\<close>

theorem constant_series_not_flagged:
  assumes "data < length st" and "wf_table (st ! data)"
    and "getitem (st ! data) column = Inr xs" and "\<forall>x\<in>set xs. x = c"
  shows "(\<exists>df st'. detect_zscore data column threshold st = (Inr df, st') \<and> df < length st' \<and>
           getitem (st' ! df) (''is_anomaly_zscore_'' @ column)
             = Inr (replicate (nrows (st ! data)) (Flag False))) \<and>
         (\<exists>df st'. detect_iqr data column multiplier st = (Inr df, st') \<and> df < length st' \<and>
           getitem (st' ! df) (''is_anomaly_iqr_'' @ column)
             = Inr (replicate (nrows (st ! data)) (Flag False)))"
proof
  from zscore_table_const[OF assms(2,3,4), of threshold] obtain t' where
    t': "zscore_table (st ! data) column threshold = Inr t'"
    "getitem t' (''is_anomaly_zscore_'' @ column) = Inr (replicate (nrows (st ! data)) (Flag False))"
    by blast
  from runs_detect_zscore[OF assms(1) order_refl, of column threshold] t'(1)
  have "runs (length st) st (detect_zscore data column threshold st) (Inr t')" by simp
  from runs_result[OF this] t'(2)
  show "\<exists>df st'. detect_zscore data column threshold st = (Inr df, st') \<and> df < length st' \<and>
           getitem (st' ! df) (''is_anomaly_zscore_'' @ column)
             = Inr (replicate (nrows (st ! data)) (Flag False))" by auto
next
  from iqr_table_const[OF assms(2,3,4), of multiplier] obtain t' where
    t': "iqr_table (st ! data) column multiplier = Inr t'"
    "getitem t' (''is_anomaly_iqr_'' @ column) = Inr (replicate (nrows (st ! data)) (Flag False))"
    by blast
  from runs_detect_iqr[OF assms(1) order_refl, of column multiplier] t'(1)
  have "runs (length st) st (detect_iqr data column multiplier st) (Inr t')" by simp
  from runs_result[OF this] t'(2)
  show "\<exists>df st'. detect_iqr data column multiplier st = (Inr df, st') \<and> df < length st' \<and>
           getitem (st' ! df) (''is_anomaly_iqr_'' @ column)
             = Inr (replicate (nrows (st ! data)) (Flag False))" by auto
qed

text \<open>
  The theorem on a table with the column \<open>[5, 5, 5]\<close>.
\<close>

theorem constant_series_not_flagged_witness:
  "(case detect_zscore 0 ''x'' 3 [constant_table] of
      (Inr df, st') \<Rightarrow> getitem (st' ! df) ''is_anomaly_zscore_x'' = Inr [Flag False, Flag False, Flag False]
    | (Inl e, st') \<Rightarrow> False) \<and>
   (case detect_iqr 0 ''x'' 1.5 [constant_table] of
      (Inr df, st') \<Rightarrow> getitem (st' ! df) ''is_anomaly_iqr_x'' = Inr [Flag False, Flag False, Flag False]
    | (Inl e, st') \<Rightarrow> False)"
proof -
  have 1: "(0::nat) < length [constant_table]" by simp
  have 2: "wf_table ([constant_table] ! 0)" by (simp add: wf_table_def constant_table_def columns_def)
  have 3: "getitem ([constant_table] ! 0) ''x'' = Inr [Num 5, Num 5, Num 5]"
    by (simp add: getitem_def constant_table_def)
  have 4: "\<forall>x\<in>set [Num 5, Num 5, Num 5]. x = Num 5" by simp
  have n: "nrows constant_table = 3" by (simp add: constant_table_def)
  from constant_series_not_flagged[OF 1 2 3 4, of 3 "1.5"]
  show ?thesis by (auto simp: n numeral_3_eq_3)
qed


subsection \<open>Moving average deviation\<close>

lemma rolling_window_nth:
  assumes "w \<le> Suc i" "i < length xs"
  shows "rolling_window w xs i = map (\<lambda>k. xs ! (i + 1 - w + k)) [0..<w]"
  unfolding rolling_window_def
  using assms by (intro nth_equalityI) auto

lemma present_all:
  "\<forall>c\<in>set cs. cell_value c \<noteq> None \<Longrightarrow> present cs = map nan_to_num cs"
  by (induction cs) (auto simp: present_def nan_to_num_def)

lemma window_values_spec:
  assumes "i < length xs"
  shows "window_values w xs i =
     (if spec_qualified w xs i
      then Some (map (\<lambda>k. nan_to_num (xs ! (i + 1 - w + k))) [0..<w]) else None)"
proof (cases "0 < w \<and> w \<le> Suc i")
  case False
  then show ?thesis by (auto simp: window_values_def spec_qualified_def)
next
  case True
  then have rw: "rolling_window w xs i = map (\<lambda>k. xs ! (i + 1 - w + k)) [0..<w]"
    using rolling_window_nth[of w i xs] assms by simp
  show ?thesis
  proof (cases "\<forall>c\<in>set (rolling_window w xs i). cell_value c \<noteq> None")
    case all: True
    then have q: "spec_qualified w xs i"
      using True by (auto simp: spec_qualified_def rw list_all_iff)
    have "present (rolling_window w xs i) = map nan_to_num (rolling_window w xs i)"
      by (rule present_all[OF all])
    then show ?thesis using True all q by (simp add: window_values_def rw o_def)
  next
    case False
    then have "\<not> spec_qualified w xs i"
      by (auto simp: spec_qualified_def rw list_all_iff)
    with False show ?thesis by (simp add: window_values_def)
  qed
qed

lemma rolling_mean_nth:
  assumes "i < length xs"
  shows "rolling_mean w xs ! i =
     (if spec_qualified w xs i then Num (spec_mean w xs i) else Missing)"
  using assms
  by (simp add: rolling_mean_def window_values_spec spec_mean_def mean_def o_def)

lemma rolling_std_nth:
  assumes "i < length xs"
  shows "rolling_std w xs ! i =
     (if spec_qualified w xs i \<and> 2 \<le> w then Num (spec_std w xs i) else Missing)"
  using assms
  by (auto simp: rolling_std_def window_values_spec spec_std_def spec_mean_def mean_def o_def)

lemma qualified_present:
  assumes "spec_qualified w xs i"
  shows "cell_value (xs ! i) = Some (nan_to_num (xs ! i))"
proof -
  from assms have w: "0 < w" "w \<le> i + 1"
    and all: "\<forall>k<w. cell_value (xs ! (i + 1 - w + k)) \<noteq> None"
    by (auto simp: spec_qualified_def list_all_iff)
  from all[rule_format, of "w - 1"] w have "cell_value (xs ! i) \<noteq> None" by simp
  then show ?thesis by (auto simp: nan_to_num_def)
qed

lemma ma_flags_nth:
  assumes "i < length xs"
  shows "ma_flags w threshold xs ! i =
     Flag (spec_qualified w xs i \<and> 2 \<le> w \<and>
           threshold * spec_std w xs i < \<bar>nan_to_num (xs ! i) - spec_mean w xs i\<bar>)"
proof -
  have l1: "length (rolling_mean w xs) = length xs" by (simp add: rolling_mean_def)
  have l2: "length (rolling_std w xs) = length xs" by (simp add: rolling_std_def)
  have l3: "length (ma_deviation w xs) = length xs" by (simp add: ma_deviation_def l1)
  have dev: "ma_deviation w xs ! i = cabs (lift2 (-) (xs ! i) (rolling_mean w xs ! i))"
    using assms by (simp add: ma_deviation_def l1)
  have fl: "ma_flags w threshold xs ! i =
      Flag (cless (lift2 (*) (Num threshold) (rolling_std w xs ! i)) (ma_deviation w xs ! i))"
    using assms by (simp add: ma_flags_def l2 l3)
  show ?thesis
  proof (cases "spec_qualified w xs i")
    case False
    then show ?thesis
      using assms by (simp add: fl rolling_std_nth cless_def lift2_def cell_value_def)
  next
    case True
    note p = qualified_present[OF True]
    show ?thesis
      using assms True p
      by (simp add: fl dev rolling_std_nth rolling_mean_nth cless_def lift2_def cabs_def
          cell_value_def)
  qed
qed

lemma cell_at_getitem:
  "getitem t name = Inr xs \<Longrightarrow> i < length xs \<Longrightarrow> cell_at t name i = Some (xs ! i)"
  by (auto simp: getitem_def cell_at_def split: option.splits)

lemma ma_table_columns:
  assumes wf: "wf_table t" and col: "getitem t column = Inr xs"
  shows "\<exists>t'. ma_table t column w threshold = Inr t' \<and>
     getitem t' (''ma_'' @ column) = Inr (rolling_mean w xs) \<and>
     getitem t' (''std_'' @ column) = Inr (rolling_std w xs) \<and>
     getitem t' (''is_anomaly_ma_'' @ column) = Inr (ma_flags w threshold xs)"
proof -
  have len: "length xs = nrows t" by (rule wf_getitem_length[OF wf col])
  have l1: "length (rolling_mean w xs) = length xs" by (simp add: rolling_mean_def)
  have l2: "length (rolling_std w xs) = length xs" by (simp add: rolling_std_def)
  have l3: "length (ma_deviation w xs) = length xs" by (simp add: ma_deviation_def l1)
  have l4: "length (ma_flags w threshold xs) = length xs" by (simp add: ma_flags_def l2 l3)
  show ?thesis
    using len col l1 l2 l3 l4
    by (simp add: ma_table_def ebind_def setitem_def getitem_def map_of_put)
qed

lemma detect_ma_cells:
  assumes "data < length st" and "wf_table (st ! data)"
    and "getitem (st ! data) column = Inr xs"
  shows "\<exists>df st'. detect_moving_average_deviation data column w threshold st = (Inr df, st') \<and>
     df < length st' \<and>
     (\<forall>i<length xs.
        cell_at (st' ! df) (''ma_'' @ column) i
          = Some (if spec_qualified w xs i then Num (spec_mean w xs i) else Missing) \<and>
        cell_at (st' ! df) (''std_'' @ column) i
          = Some (if spec_qualified w xs i \<and> 2 \<le> w then Num (spec_std w xs i) else Missing) \<and>
        cell_at (st' ! df) (''is_anomaly_ma_'' @ column) i
          = Some (Flag (spec_qualified w xs i \<and> 2 \<le> w \<and>
                threshold * spec_std w xs i < \<bar>nan_to_num (xs ! i) - spec_mean w xs i\<bar>)))"
proof -
  from ma_table_columns[OF assms(2,3), of w threshold] obtain t' where
    t': "ma_table (st ! data) column w threshold = Inr t'"
    "getitem t' (''ma_'' @ column) = Inr (rolling_mean w xs)"
    "getitem t' (''std_'' @ column) = Inr (rolling_std w xs)"
    "getitem t' (''is_anomaly_ma_'' @ column) = Inr (ma_flags w threshold xs)" by blast
  from runs_detect_moving_average_deviation[OF assms(1) order_refl, of column w threshold] t'(1)
  have "runs (length st) st (detect_moving_average_deviation data column w threshold st) (Inr t')"
    by simp
  from runs_result[OF this] obtain df st' where
    r: "detect_moving_average_deviation data column w threshold st = (Inr df, st')"
    "df < length st'" "st' ! df = t'" by blast
  have l1: "length (rolling_mean w xs) = length xs" by (simp add: rolling_mean_def)
  have l2: "length (rolling_std w xs) = length xs" by (simp add: rolling_std_def)
  have l4: "length (ma_flags w threshold xs) = length xs"
    by (simp add: ma_flags_def ma_deviation_def l1 l2)
  have "\<forall>i<length xs.
        cell_at t' (''ma_'' @ column) i
          = Some (if spec_qualified w xs i then Num (spec_mean w xs i) else Missing) \<and>
        cell_at t' (''std_'' @ column) i
          = Some (if spec_qualified w xs i \<and> 2 \<le> w then Num (spec_std w xs i) else Missing) \<and>
        cell_at t' (''is_anomaly_ma_'' @ column) i
          = Some (Flag (spec_qualified w xs i \<and> 2 \<le> w \<and>
                threshold * spec_std w xs i < \<bar>nan_to_num (xs ! i) - spec_mean w xs i\<bar>))"
    using cell_at_getitem[OF t'(2)] cell_at_getitem[OF t'(3)] cell_at_getitem[OF t'(4)]
    by (simp add: l1 l2 l4 rolling_mean_nth rolling_std_nth ma_flags_nth)
  with r show ?thesis by blast
qed


text \<open>
  Claim C6, as the code has it. On a well-formed table \<open>detect_moving_average_deviation\<close>
  returns, and in every row \<open>i\<close> of the result: the moving average is the mean of the
  trailing window of \<open>w\<close> rows that ends at row \<open>i\<close> itself, the deviation column
  \<open>std\<close> is their sample deviation (undefined for \<open>w = 1\<close>), both missing unless the
  row is qualified; and the flag is \<open>True\<close> exactly when the row is qualified,
  \<open>w \<ge> 2\<close>, and \<open>|value - mean| > threshold * std\<close>. The rows \<open>0, \<dots>, w - 2\<close> are
  never flagged. The window counts the row itself, so the first qualified row is row
  \<open>w - 1\<close>, which has \<open>w - 1\<close> rows before it.
\<close>

theorem moving_average_deviation_trailing:
  assumes "data < length st" and "wf_table (st ! data)"
    and "getitem (st ! data) column = Inr xs"
  shows "\<exists>df st'. detect_moving_average_deviation data column w threshold st = (Inr df, st') \<and>
     df < length st' \<and>
     (\<forall>i<length xs.
        cell_at (st' ! df) (''ma_'' @ column) i
          = Some (if spec_qualified w xs i then Num (spec_mean w xs i) else Missing) \<and>
        cell_at (st' ! df) (''std_'' @ column) i
          = Some (if spec_qualified w xs i \<and> 2 \<le> w then Num (spec_std w xs i) else Missing) \<and>
        cell_at (st' ! df) (''is_anomaly_ma_'' @ column) i
          = Some (Flag (spec_qualified w xs i \<and> 2 \<le> w \<and>
                threshold * spec_std w xs i < \<bar>nan_to_num (xs ! i) - spec_mean w xs i\<bar>)) \<and>
        (i + 1 < w \<longrightarrow> cell_at (st' ! df) (''is_anomaly_ma_'' @ column) i = Some (Flag False)))"
proof -
  from detect_ma_cells[OF assms, of w threshold] obtain df st' where
    r: "detect_moving_average_deviation data column w threshold st = (Inr df, st')"
      "df < length st'"
    and c: "\<forall>i<length xs.
        cell_at (st' ! df) (''ma_'' @ column) i
          = Some (if spec_qualified w xs i then Num (spec_mean w xs i) else Missing) \<and>
        cell_at (st' ! df) (''std_'' @ column) i
          = Some (if spec_qualified w xs i \<and> 2 \<le> w then Num (spec_std w xs i) else Missing) \<and>
        cell_at (st' ! df) (''is_anomaly_ma_'' @ column) i
          = Some (Flag (spec_qualified w xs i \<and> 2 \<le> w \<and>
                threshold * spec_std w xs i < \<bar>nan_to_num (xs ! i) - spec_mean w xs i\<bar>))"
    by blast
  have "\<not> spec_qualified w xs i" if "i + 1 < w" for i
    using that by (simp add: spec_qualified_def)
  with c have "\<forall>i<length xs. i + 1 < w \<longrightarrow>
      cell_at (st' ! df) (''is_anomaly_ma_'' @ column) i = Some (Flag False)"
    by simp
  with r c show ?thesis by blast
qed

lemma example_table_wf: "wf_table example_table"
  by (simp add: wf_table_def example_table_def columns_def)

text \<open>
  The theorem on the example table: with five rows and a window of seven, row \<open>4\<close> is not
  flagged.
\<close>

theorem moving_average_deviation_trailing_witness:
  "(case detect_moving_average_deviation 0 ''x'' 7 2 [example_table] of
      (Inr df, st') \<Rightarrow> cell_at (st' ! df) ''is_anomaly_ma_x'' 4 = Some (Flag False)
    | (Inl e, st') \<Rightarrow> False)"
proof -
  have 1: "(0::nat) < length [example_table]" by simp
  have 2: "wf_table ([example_table] ! 0)" by (simp add: example_table_wf)
  have 3: "getitem ([example_table] ! 0) ''x'' = Inr [Num 0, Num 0, Num 0, Num 0, Num 100]"
    by (simp add: getitem_def example_table_def)
  from moving_average_deviation_trailing[OF 1 2 3, of 7 2] obtain df st' where
    r: "detect_moving_average_deviation 0 ''x'' 7 2 [example_table] = (Inr df, st')"
    and c: "\<forall>i<length [Num 0, Num 0, Num 0, Num 0, Num 100].
        i + 1 < (7::nat) \<longrightarrow>
        cell_at (st' ! df) (''is_anomaly_ma_'' @ ''x'') i = Some (Flag False)"
    by blast
  from c[rule_format, of 4] have "cell_at (st' ! df) ''is_anomaly_ma_x'' 4 = Some (Flag False)"
    by simp
  with r show ?thesis by simp
qed

lemma seven_std: "2 * sqrt (1 / 7) < 6 / 7"
proof -
  have "sqrt (9 / 49) = 3 / 7"
    by (rule real_sqrt_unique) (simp_all add: power2_eq_square)
  moreover have "sqrt (1 / 7) < sqrt (9 / 49)"
    by (subst real_sqrt_less_iff) simp
  ultimately show ?thesis by linarith
qed

text \<open>
  Claim C6 as stated fails: with the default window \<open>7\<close> and threshold \<open>2\<close> on the
  column \<open>[0, 0, 0, 0, 0, 0, 1]\<close>, row \<open>6\<close> has only six rows before it, fewer than the
  window, and is flagged: its window is the whole column, with mean \<open>1/7\<close> and sample
  deviation \<open>sqrt (1/7)\<close>, and \<open>6/7 > 2 * sqrt (1/7)\<close>.
\<close>

theorem moving_average_row_counterexample:
  "(case detect_moving_average_deviation 0 ''x'' 7 2 [seven_table] of
      (Inr df, st') \<Rightarrow> cell_at (st' ! df) ''is_anomaly_ma_x'' 6 = Some (Flag True)
    | (Inl e, st') \<Rightarrow> False)"
proof -
  let ?xs = "[Num 0, Num 0, Num 0, Num 0, Num 0, Num 0, Num 1]"
  have 1: "(0::nat) < length [seven_table]" by simp
  have 2: "wf_table ([seven_table] ! 0)"
    by (simp add: wf_table_def seven_table_def columns_def)
  have 3: "getitem ([seven_table] ! 0) ''x'' = Inr ?xs"
    by (simp add: getitem_def seven_table_def)
  have q: "spec_qualified 7 ?xs 6"
    by (simp add: spec_qualified_def cell_value_def upt_rec)
  have m: "spec_mean 7 ?xs 6 = 1 / 7"
    by (simp add: spec_mean_def nan_to_num_def cell_value_def upt_rec)
  have "(\<Sum>k\<leftarrow>[0..<7]. (nan_to_num (?xs ! (6 + 1 - 7 + k)) - 1 / 7)\<^sup>2) / real (7 - 1) = 1 / 7"
    by (simp add: nan_to_num_def cell_value_def upt_rec power2_eq_square)
  then have s: "spec_std 7 ?xs 6 = sqrt (1 / 7)"
    unfolding spec_std_def m by simp
  have f: "2 * spec_std 7 ?xs 6 < \<bar>nan_to_num (?xs ! 6) - spec_mean 7 ?xs 6\<bar>"
    unfolding s m using seven_std by (simp add: nan_to_num_def cell_value_def)
  from detect_ma_cells[OF 1 2 3, of 7 2] obtain df st' where
    r: "detect_moving_average_deviation 0 ''x'' 7 2 [seven_table] = (Inr df, st')"
    and c: "cell_at (st' ! df) (''is_anomaly_ma_'' @ ''x'') 6
          = Some (Flag (spec_qualified 7 ?xs 6 \<and> (2::nat) \<le> 7 \<and>
                2 * spec_std 7 ?xs 6 < \<bar>nan_to_num (?xs ! 6) - spec_mean 7 ?xs 6\<bar>))"
    by force
  from c q f have "cell_at (st' ! df) ''is_anomaly_ma_x'' 6 = Some (Flag True)"
    by simp
  with r show ?thesis by simp
qed

subsection \<open>Isolation forest\<close>

lemma getitems_present:
  "set features \<subseteq> set (columns t) \<Longrightarrow>
   \<exists>cs. getitems t features = Inr cs \<and> length cs = length features"
proof (induction features)
  case Nil
  then show ?case by simp
next
  case (Cons f features)
  then obtain cs where cs: "getitems t features = Inr cs" "length cs = length features" by auto
  from Cons.prems obtain c where c: "getitem t f = Inr c"
    using getitem_columns[of f t] by auto
  show ?case using cs c by (simp add: ebind_def)
qed

lemma fit_transform_ok:
  assumes "0 < n" "cs \<noteq> []"
  shows "\<exists>X. fit_transform (map (map nan_to_num) (transpose_rows n cs)) = Inr X \<and> length X = n"
proof -
  let ?X = "map (map nan_to_num) (transpose_rows n cs)"
  have ne: "?X \<noteq> []" using assms by (simp add: transpose_rows_def)
  have "hd ?X = map nan_to_num (map (\<lambda>c. c ! 0) cs)"
    using assms by (simp add: transpose_rows_def hd_map upt_conv_Cons)
  then have hne: "hd ?X \<noteq> []" using assms by simp
  show ?thesis using ne hne by (simp add: fit_transform_def transpose_rows_def)
qed

lemma fit_transform_empty: "fit_transform (map (map nan_to_num) (transpose_rows 0 cs)) = Inl ValueError"
  by (simp add: fit_transform_def transpose_rows_def)

lemma getitems_error:
  "getitems t features = Inl e \<Longrightarrow> \<exists>f\<in>set features. f \<notin> set (columns t) \<and> e = KeyError f"
proof (induction features)
  case Nil
  then show ?case by simp
next
  case (Cons f features)
  show ?case
  proof (cases "getitem t f")
    case (Inl e')
    then have "f \<notin> set (columns t)" "e' = KeyError f"
      by (auto simp: getitem_def columns_def map_of_eq_None_iff split: option.splits)
    with Cons.prems Inl show ?thesis by (simp add: ebind_def)
  next
    case (Inr c)
    with Cons show ?thesis by (auto simp: ebind_def split: sum.splits)
  qed
qed

lemma fit_transform_no_columns:
  "fit_transform (map (map nan_to_num) (transpose_rows n [])) = Inl ValueError"
  by (cases n) (simp_all add: fit_transform_def transpose_rows_def upt_conv_Cons hd_map del: upt_Suc)

lemma getitems_missing:
  "\<not> set features \<subseteq> set (columns t) \<Longrightarrow> \<exists>e. getitems t features = Inl e"
proof (induction features)
  case Nil
  then show ?case by simp
next
  case (Cons f features)
  show ?case
  proof (cases "getitem t f")
    case (Inl e)
    then show ?thesis by (simp add: ebind_def)
  next
    case (Inr c)
    then have "f \<in> set (columns t)"
      by (auto simp: getitem_def columns_def split: option.splits dest: map_of_SomeD
          intro: rev_image_eqI)
    with Cons obtain e where "getitems t features = Inl e" by auto
    with Inr show ?thesis by (simp add: ebind_def)
  qed
qed

lemma forest_table_missing:
  assumes "\<not> set features \<subseteq> set (columns t)"
  shows "\<exists>f\<in>set features. f \<notin> set (columns t) \<and>
           forest_table iso_forest t features = Inl (KeyError f)"
proof -
  from getitems_missing[OF assms] obtain e where e: "getitems t features = Inl e" by blast
  from getitems_error[OF e] obtain f where f: "f \<in> set features" "f \<notin> set (columns t)"
    "e = KeyError f" by blast
  have "forest_table iso_forest t features = Inl (KeyError f)"
    using e f(3) by (simp add: forest_table_def select_values_def ebind_def)
  with f show ?thesis by blast
qed

lemma forest_table_nothing:
  assumes "set features \<subseteq> set (columns t)" "nrows t = 0 \<or> features = []"
  shows "forest_table iso_forest t features = Inl ValueError"
proof -
  from getitems_present[OF assms(1)] obtain cs where cs: "getitems t features = Inr cs"
    "length cs = length features" by blast
  from assms(2) have "fit_transform (map (map nan_to_num) (transpose_rows (nrows t) cs))
      = Inl ValueError"
    using cs(2) fit_transform_empty fit_transform_no_columns by auto
  then show ?thesis
    using cs(1) by (simp add: forest_table_def select_values_def ebind_def)
qed

lemma forest_table_outcomes:
  assumes f: "set features \<subseteq> set (columns t)" "features \<noteq> []" and n: "0 < nrows t"
  shows "\<exists>cells X. select_values t features = Inr cells \<and>
     fit_transform (map (map nan_to_num) cells) = Inr X \<and> length X = nrows t \<and>
     (\<forall>e. fit_predict iso_forest X = Inl e \<longrightarrow> forest_table iso_forest t features = Inl e) \<and>
     (\<forall>ps e. fit_predict iso_forest X = Inr ps \<and> score_samples iso_forest X = Inl e \<longrightarrow>
        forest_table iso_forest t features = Inl e) \<and>
     (\<forall>ps ss. fit_predict iso_forest X = Inr ps \<and> score_samples iso_forest X = Inr ss \<and>
        (length ps \<noteq> nrows t \<or> length ss \<noteq> nrows t) \<longrightarrow>
        forest_table iso_forest t features = Inl ValueError) \<and>
     (\<forall>ps ss. fit_predict iso_forest X = Inr ps \<and> score_samples iso_forest X = Inr ss \<and>
        length ps = nrows t \<and> length ss = nrows t \<longrightarrow>
        (\<exists>t'. forest_table iso_forest t features = Inr t' \<and>
           getitem t' ''is_anomaly_if'' = Inr (map (\<lambda>p. Flag (p = - 1)) ps) \<and>
           getitem t' ''anomaly_score_if'' = Inr (map Num ss)))"
proof -
  from getitems_present[OF f(1)] obtain cs where cs: "getitems t features = Inr cs"
    "length cs = length features" by blast
  then have cne: "cs \<noteq> []" using f(2) by auto
  have sel: "select_values t features = Inr (transpose_rows (nrows t) cs)"
    using cs by (simp add: select_values_def ebind_def)
  from fit_transform_ok[OF n cne] obtain X where
    X: "fit_transform (map (map nan_to_num) (transpose_rows (nrows t) cs)) = Inr X"
    "length X = nrows t" by blast
  have 1: "forest_table iso_forest t features = Inl e" if "fit_predict iso_forest X = Inl e" for e
    using that sel X by (simp add: forest_table_def ebind_def)
  have 2: "forest_table iso_forest t features = Inl e"
    if "fit_predict iso_forest X = Inr ps \<and> score_samples iso_forest X = Inl e" for ps e
    using that sel X by (simp add: forest_table_def ebind_def)
  have 3: "forest_table iso_forest t features = Inl ValueError"
    if "fit_predict iso_forest X = Inr ps \<and> score_samples iso_forest X = Inr ss \<and>
        (length ps \<noteq> nrows t \<or> length ss \<noteq> nrows t)" for ps ss
    using that sel X by (auto simp: forest_table_def ebind_def setitem_def)
  have 4: "\<exists>t'. forest_table iso_forest t features = Inr t' \<and>
           getitem t' ''is_anomaly_if'' = Inr (map (\<lambda>p. Flag (p = - 1)) ps) \<and>
           getitem t' ''anomaly_score_if'' = Inr (map Num ss)"
    if "fit_predict iso_forest X = Inr ps \<and> score_samples iso_forest X = Inr ss \<and>
      length ps = nrows t \<and> length ss = nrows t" for ps ss
    using that sel X
    by (simp add: forest_table_def ebind_def setitem_def getitem_def map_of_put)
  show ?thesis
    apply (rule exI[of _ "transpose_rows (nrows t) cs"], rule exI[of _ X])
    apply (intro conjI allI impI)
    using sel X 1 2 3 4 by blast+
qed

text \<open>
  Claim C4, as the code has it. \<open>detect_isolation_forest\<close> makes no check of the number of
  rows, and its outcome is decided as follows. A feature label that is not a column of the
  table raises \<open>KeyError\<close> with such a label. With every feature label a column: a table
  without rows, or an empty list of features, raises the \<open>ValueError\<close> of the scaler; with
  at least one row and at least one feature the scaler returns one scaled row per row, and
  then an exception of \<open>fit_predict\<close> is raised as it is, so is an exception of
  \<open>score_samples\<close>, labels or scores that are not one per row raise \<open>ValueError\<close> at the
  assignment, and one label and one score per row make the method return a table in which
  every row holds a boolean flag (label \<open>= -1\<close>) and a score.
\<close>

theorem isolation_forest_outcomes:
  assumes "data < length st"
  shows "(\<not> set features \<subseteq> set (columns (st ! data)) \<longrightarrow>
            (\<exists>f\<in>set features. f \<notin> set (columns (st ! data)) \<and>
               fst (detect_isolation_forest iso_forest data features st) = Inl (KeyError f))) \<and>
         (set features \<subseteq> set (columns (st ! data)) \<and>
          (nrows (st ! data) = 0 \<or> features = []) \<longrightarrow>
            fst (detect_isolation_forest iso_forest data features st) = Inl ValueError) \<and>
         (set features \<subseteq> set (columns (st ! data)) \<and> 0 < nrows (st ! data) \<and> features \<noteq> [] \<longrightarrow>
            (\<exists>cells X. select_values (st ! data) features = Inr cells \<and>
               fit_transform (map (map nan_to_num) cells) = Inr X \<and>
               length X = nrows (st ! data) \<and>
               (\<forall>e. fit_predict iso_forest X = Inl e \<longrightarrow>
                  fst (detect_isolation_forest iso_forest data features st) = Inl e) \<and>
               (\<forall>ps e. fit_predict iso_forest X = Inr ps \<and> score_samples iso_forest X = Inl e \<longrightarrow>
                  fst (detect_isolation_forest iso_forest data features st) = Inl e) \<and>
               (\<forall>ps ss. fit_predict iso_forest X = Inr ps \<and> score_samples iso_forest X = Inr ss \<and>
                  (length ps \<noteq> nrows (st ! data) \<or> length ss \<noteq> nrows (st ! data)) \<longrightarrow>
                  fst (detect_isolation_forest iso_forest data features st) = Inl ValueError) \<and>
               (\<forall>ps ss. fit_predict iso_forest X = Inr ps \<and> score_samples iso_forest X = Inr ss \<and>
                  length ps = nrows (st ! data) \<and> length ss = nrows (st ! data) \<longrightarrow>
                  (\<exists>df st'. detect_isolation_forest iso_forest data features st = (Inr df, st') \<and>
                     df < length st' \<and>
                     (\<forall>i<nrows (st ! data).
                        cell_at (st' ! df) ''is_anomaly_if'' i = Some (Flag (ps ! i = - 1)) \<and>
                        cell_at (st' ! df) ''anomaly_score_if'' i = Some (Num (ss ! i)))))))"
proof (intro conjI impI)
  let ?t = "st ! data"
  let ?out = "detect_isolation_forest iso_forest data features st"
  note run = runs_detect_isolation_forest[OF assms order_refl, of iso_forest features]
  have err: "fst ?out = Inl e" if "forest_table iso_forest ?t features = Inl e" for e
    using run that by (simp add: runs_def)
  {
    assume "\<not> set features \<subseteq> set (columns ?t)"
    from forest_table_missing[OF this, of iso_forest] obtain f where
      "f \<in> set features" "f \<notin> set (columns ?t)"
      "forest_table iso_forest ?t features = Inl (KeyError f)" by blast
    with err show "\<exists>f\<in>set features. f \<notin> set (columns ?t) \<and> fst ?out = Inl (KeyError f)"
      by blast
  }
  {
    assume "set features \<subseteq> set (columns ?t) \<and> (nrows ?t = 0 \<or> features = [])"
    then have "forest_table iso_forest ?t features = Inl ValueError"
      using forest_table_nothing by blast
    then show "fst ?out = Inl ValueError" by (rule err)
  }
  {
    assume h: "set features \<subseteq> set (columns ?t) \<and> 0 < nrows ?t \<and> features \<noteq> []"
    then have f1: "set features \<subseteq> set (columns ?t)" and f2: "features \<noteq> []"
      and f3: "0 < nrows ?t" by auto
    from forest_table_outcomes[OF f1 f2 f3, of iso_forest] obtain cells X where
      c: "select_values ?t features = Inr cells"
      "fit_transform (map (map nan_to_num) cells) = Inr X" "length X = nrows ?t"
      and t1: "\<forall>e. fit_predict iso_forest X = Inl e \<longrightarrow>
        forest_table iso_forest ?t features = Inl e"
      and t2: "\<forall>ps e. fit_predict iso_forest X = Inr ps \<and> score_samples iso_forest X = Inl e \<longrightarrow>
        forest_table iso_forest ?t features = Inl e"
      and t3: "\<forall>ps ss. fit_predict iso_forest X = Inr ps \<and> score_samples iso_forest X = Inr ss \<and>
        (length ps \<noteq> nrows ?t \<or> length ss \<noteq> nrows ?t) \<longrightarrow>
        forest_table iso_forest ?t features = Inl ValueError"
      and t4: "\<forall>ps ss. fit_predict iso_forest X = Inr ps \<and> score_samples iso_forest X = Inr ss \<and>
        length ps = nrows ?t \<and> length ss = nrows ?t \<longrightarrow>
        (\<exists>t'. forest_table iso_forest ?t features = Inr t' \<and>
           getitem t' ''is_anomaly_if'' = Inr (map (\<lambda>p. Flag (p = - 1)) ps) \<and>
           getitem t' ''anomaly_score_if'' = Inr (map Num ss))"
      by (elim exE conjE) blast
    have r1: "\<forall>e. fit_predict iso_forest X = Inl e \<longrightarrow> fst ?out = Inl e"
      using t1 err by blast
    have r2: "\<forall>ps e. fit_predict iso_forest X = Inr ps \<and> score_samples iso_forest X = Inl e \<longrightarrow>
        fst ?out = Inl e"
      using t2 err by blast
    have r3: "\<forall>ps ss. fit_predict iso_forest X = Inr ps \<and> score_samples iso_forest X = Inr ss \<and>
        (length ps \<noteq> nrows ?t \<or> length ss \<noteq> nrows ?t) \<longrightarrow> fst ?out = Inl ValueError"
    proof (intro allI impI)
      fix ps ss
      assume "fit_predict iso_forest X = Inr ps \<and> score_samples iso_forest X = Inr ss \<and>
        (length ps \<noteq> nrows ?t \<or> length ss \<noteq> nrows ?t)"
      with t3[rule_format, of ps ss] show "fst ?out = Inl ValueError" by (intro err)
    qed
    have r4: "\<forall>ps ss. fit_predict iso_forest X = Inr ps \<and> score_samples iso_forest X = Inr ss \<and>
        length ps = nrows ?t \<and> length ss = nrows ?t \<longrightarrow>
        (\<exists>df st'. ?out = (Inr df, st') \<and> df < length st' \<and>
           (\<forall>i<nrows ?t.
              cell_at (st' ! df) ''is_anomaly_if'' i = Some (Flag (ps ! i = - 1)) \<and>
              cell_at (st' ! df) ''anomaly_score_if'' i = Some (Num (ss ! i))))"
    proof (intro allI impI)
      fix ps ss
      assume p: "fit_predict iso_forest X = Inr ps \<and> score_samples iso_forest X = Inr ss \<and>
        length ps = nrows ?t \<and> length ss = nrows ?t"
      from t4[rule_format, of ps ss] p obtain t' where
        t': "forest_table iso_forest ?t features = Inr t'"
        "getitem t' ''is_anomaly_if'' = Inr (map (\<lambda>p. Flag (p = - 1)) ps)"
        "getitem t' ''anomaly_score_if'' = Inr (map Num ss)" by blast
      from run t'(1) have "runs (length st) st ?out (Inr t')" by simp
      from runs_result[OF this] obtain df st' where
        r: "?out = (Inr df, st')" "df < length st'" "st' ! df = t'" by blast
      have "\<forall>i<nrows ?t.
              cell_at t' ''is_anomaly_if'' i = Some (Flag (ps ! i = - 1)) \<and>
              cell_at t' ''anomaly_score_if'' i = Some (Num (ss ! i))"
        using cell_at_getitem[OF t'(2)] cell_at_getitem[OF t'(3)] p by simp
      with r show "\<exists>df st'. ?out = (Inr df, st') \<and> df < length st' \<and>
           (\<forall>i<nrows ?t.
              cell_at (st' ! df) ''is_anomaly_if'' i = Some (Flag (ps ! i = - 1)) \<and>
              cell_at (st' ! df) ''anomaly_score_if'' i = Some (Num (ss ! i)))" by blast
    qed
    show "\<exists>cells X. select_values ?t features = Inr cells \<and>
               fit_transform (map (map nan_to_num) cells) = Inr X \<and>
               length X = nrows ?t \<and>
               (\<forall>e. fit_predict iso_forest X = Inl e \<longrightarrow> fst ?out = Inl e) \<and>
               (\<forall>ps e. fit_predict iso_forest X = Inr ps \<and> score_samples iso_forest X = Inl e \<longrightarrow>
                  fst ?out = Inl e) \<and>
               (\<forall>ps ss. fit_predict iso_forest X = Inr ps \<and> score_samples iso_forest X = Inr ss \<and>
                  (length ps \<noteq> nrows ?t \<or> length ss \<noteq> nrows ?t) \<longrightarrow>
                  fst ?out = Inl ValueError) \<and>
               (\<forall>ps ss. fit_predict iso_forest X = Inr ps \<and> score_samples iso_forest X = Inr ss \<and>
                  length ps = nrows ?t \<and> length ss = nrows ?t \<longrightarrow>
                  (\<exists>df st'. ?out = (Inr df, st') \<and> df < length st' \<and>
                     (\<forall>i<nrows ?t.
                        cell_at (st' ! df) ''is_anomaly_if'' i = Some (Flag (ps ! i = - 1)) \<and>
                        cell_at (st' ! df) ''anomaly_score_if'' i = Some (Num (ss ! i)))))"
      apply (rule exI[of _ cells], rule exI[of _ X])
      using c r1 r2 r3 r4 by (intro conjI) assumption+
  }
qed

lemma one_row_run:
  "detect_isolation_forest example_forest 0 [''x''] [one_row_table] =
     (Inr 1, [one_row_table,
        \<lparr>nrows = 1, cols = [(''x'', [Num 1]), (''is_anomaly_if'', [Flag False]),
                             (''anomaly_score_if'', [Num 0])]\<rparr>])"
  by (simp add: detect_isolation_forest_def and_then_def copy_def load_values_def lift_def
      assign_def ret_def select_values_def ebind_def getitem_def setitem_def one_row_table_def
      transpose_rows_def nan_to_num_def cell_value_def fit_transform_def scale_feature_def
      mean_def example_forest_def Let_def)

lemma sqrt_1600: "sqrt 1600 = 40"
  by (rule real_sqrt_unique) simp_all

lemma example_cells:
  "select_values example_table [''x''] = Inr [[Num 0], [Num 0], [Num 0], [Num 0], [Num 100]]"
  by (simp add: select_values_def ebind_def getitem_def example_table_def transpose_rows_def
      upt_rec)

lemma example_scaled:
  "fit_transform (map (map nan_to_num) [[Num 0], [Num 0], [Num 0], [Num 0], [Num 100]])
     = Inr [[- 1 / 2], [- 1 / 2], [- 1 / 2], [- 1 / 2], [2]]"
  by (simp add: fit_transform_def transpose_rows_def nan_to_num_def cell_value_def
      scale_feature_def mean_def upt_rec sqrt_1600 Let_def)

text \<open>
  The theorem on the example table with the stand-in forest: a label that is not a column,
  an empty list of features, a table without rows, and the column \<open>x\<close>, whose scaled
  values are \<open>[-0.5, -0.5, -0.5, -0.5, 2]\<close> and whose last row is flagged.
\<close>

theorem isolation_forest_outcomes_witness:
  "fst (detect_isolation_forest example_forest 0 [''y''] [example_table]) = Inl (KeyError ''y'') \<and>
   fst (detect_isolation_forest example_forest 0 [] [example_table]) = Inl ValueError \<and>
   fst (detect_isolation_forest example_forest 0 [''x''] [empty_table]) = Inl ValueError \<and>
   (case detect_isolation_forest example_forest 0 [''x''] [example_table] of
      (Inr df, st') \<Rightarrow> cell_at (st' ! df) ''is_anomaly_if'' 4 = Some (Flag True) \<and>
                       cell_at (st' ! df) ''anomaly_score_if'' 4 = Some (Num (- 2))
    | (Inl e, st') \<Rightarrow> False)"
proof (intro conjI)
  have 1: "(0::nat) < length [example_table]" by simp
  have 3: "\<not> set [''y''] \<subseteq> set (columns ([example_table] ! 0))"
    by (simp add: example_table_def columns_def)
  from isolation_forest_outcomes[OF 1, of "[''y'']" example_forest] 3
  show "fst (detect_isolation_forest example_forest 0 [''y''] [example_table])
      = Inl (KeyError ''y'')"
    by auto
next
  have 1: "(0::nat) < length [example_table]" by simp
  from isolation_forest_outcomes[OF 1, of "[]" example_forest]
  show "fst (detect_isolation_forest example_forest 0 [] [example_table]) = Inl ValueError"
    by simp
next
  have 1: "(0::nat) < length [empty_table]" by simp
  have 3: "set [''x''] \<subseteq> set (columns ([empty_table] ! 0)) \<and>
      (nrows ([empty_table] ! 0) = 0 \<or> [''x''] = [])"
    by (simp add: empty_table_def columns_def)
  from isolation_forest_outcomes[OF 1, of "[''x'']" example_forest] 3
  show "fst (detect_isolation_forest example_forest 0 [''x''] [empty_table]) = Inl ValueError"
    by blast
next
  let ?X = "[[- 1 / 2], [- 1 / 2], [- 1 / 2], [- 1 / 2], [2::real]]"
  have 1: "(0::nat) < length [example_table]" by simp
  have 3: "set [''x''] \<subseteq> set (columns ([example_table] ! 0)) \<and>
      0 < nrows ([example_table] ! 0) \<and> [''x''] \<noteq> []"
    by (simp add: example_table_def columns_def)
  from isolation_forest_outcomes[OF 1, of "[''x'']" example_forest] 3 obtain cells X where
    c: "select_values ([example_table] ! 0) [''x''] = Inr cells"
      "fit_transform (map (map nan_to_num) cells) = Inr X"
    and t: "\<forall>ps ss. fit_predict example_forest X = Inr ps \<and> score_samples example_forest X = Inr ss \<and>
        length ps = nrows ([example_table] ! 0) \<and> length ss = nrows ([example_table] ! 0) \<longrightarrow>
        (\<exists>df st'. detect_isolation_forest example_forest 0 [''x''] [example_table] = (Inr df, st') \<and>
           df < length st' \<and>
           (\<forall>i<nrows ([example_table] ! 0).
              cell_at (st' ! df) ''is_anomaly_if'' i = Some (Flag (ps ! i = - 1)) \<and>
              cell_at (st' ! df) ''anomaly_score_if'' i = Some (Num (ss ! i))))"
    by (elim conjE exE) blast
  from c have X: "X = ?X" using example_cells example_scaled by simp
  have p: "fit_predict example_forest ?X = Inr [1, 1, 1, 1, - 1]"
    and s: "score_samples example_forest ?X = Inr [- (1 / 2), - (1 / 2), - (1 / 2), - (1 / 2), - 2]"
    by (simp_all add: example_forest_def)
  have n: "nrows ([example_table] ! 0) = 5" by (simp add: example_table_def)
  from t[rule_format, of "[1, 1, 1, 1, - 1]" "[- (1 / 2), - (1 / 2), - (1 / 2), - (1 / 2), - 2]"]
    p s X n
  obtain df st' where r: "detect_isolation_forest example_forest 0 [''x''] [example_table] = (Inr df, st')"
    and cells: "\<forall>i<5. cell_at (st' ! df) ''is_anomaly_if'' i
         = Some (Flag ([1, 1, 1, 1, - 1 :: int] ! i = - 1)) \<and>
       cell_at (st' ! df) ''anomaly_score_if'' i
         = Some (Num ([- (1 / 2), - (1 / 2), - (1 / 2), - (1 / 2), - 2] ! i))"
    by auto
  from cells[rule_format, of 4] have "cell_at (st' ! df) ''is_anomaly_if'' 4 = Some (Flag True) \<and>
                       cell_at (st' ! df) ''anomaly_score_if'' 4 = Some (Num (- 2))"
    by simp
  with r show "case detect_isolation_forest example_forest 0 [''x''] [example_table] of
      (Inr df, st') \<Rightarrow> cell_at (st' ! df) ''is_anomaly_if'' 4 = Some (Flag True) \<and>
                       cell_at (st' ! df) ''anomaly_score_if'' 4 = Some (Num (- 2))
    | (Inl e, st') \<Rightarrow> False" by simp
qed

text \<open>
  Claim C4 as stated fails: on a table with a single row, fewer than two, the method
  returns a flag and a score for that row once the forest accepts the row, as the stand-in
  does and as a forest that samples \<open>min(256, n)\<close> rows does for \<open>n = 1\<close>. There is no
  \<open>InsufficientDataError\<close> anywhere in the code.
\<close>

theorem isolation_forest_one_row_counterexample:
  "(case detect_isolation_forest example_forest 0 [''x''] [one_row_table] of
      (Inr df, st') \<Rightarrow> cell_at (st' ! df) ''is_anomaly_if'' 0 = Some (Flag False) \<and>
                       cell_at (st' ! df) ''anomaly_score_if'' 0 = Some (Num 0)
    | (Inl e, st') \<Rightarrow> False)"
  by (simp add: one_row_run cell_at_def)


subsection \<open>Consensus\<close>

lemma all_flags_iff: "all_flags xs \<longleftrightarrow> (\<forall>c\<in>set xs. \<exists>b. c = Flag b)"
proof -
  have "(case c of Flag b \<Rightarrow> True | _ \<Rightarrow> False) \<longleftrightarrow> (\<exists>b. c = Flag b)" for c
    by (cases c) auto
  then show ?thesis by (simp add: all_flags_def list_all_iff)
qed

lemma all_flags_map [simp]: "all_flags (map (\<lambda>x. Flag (f x)) xs)"
  by (simp add: all_flags_iff)










lemma all_flags_ma [simp]: "all_flags (ma_flags w threshold xs)"
  by (auto simp: ma_flags_def all_flags_iff)





























end
